theory Spec2Isabelle
  imports Complex_Main
begin

section \<open>JavaScript values as the route handler sees them\<close>

text \<open>
  The handler of \<^verbatim>\<open>/api/flows\<close> runs on whatever \<^verbatim>\<open>request.json()\<close> returns; the
  TypeScript annotation \<^verbatim>\<open>as FlowRequestPayload\<close> is erased at run time.  The input of
  \<^verbatim>\<open>sanitizePayload\<close> is therefore a value of the JSON fragment of JavaScript, and every
  property read, method call and coercion of the source is written out on that fragment.

  Numbers: a finite double is a rational and \<^verbatim>\<open>Math.round\<close> of it is computed exactly, so
  finite numbers are rationals (the two zeros are identified: the code cannot tell them
  apart); the non-finite values are kept.  Strings are lists of characters with code
  points below 256.
\<close>

datatype jsnum = Fin rat | PosInf | NegInf | NaN

datatype jsval =
    JNull
  | JBool bool
  | JNum jsnum
  | JStr string
  | JArr "jsval list"
  | JObj "(string \<times> jsval) list"

text \<open>The only exception the normalisation code can raise is a \<^verbatim>\<open>TypeError\<close>.\<close>

datatype exn = TypeError

definition bindE :: "exn + 'a \<Rightarrow> ('a \<Rightarrow> exn + 'b) \<Rightarrow> exn + 'b" where
  "bindE m f = (case m of Inl e \<Rightarrow> Inl e | Inr x \<Rightarrow> f x)"

fun mapE :: "('a \<Rightarrow> exn + 'b) \<Rightarrow> 'a list \<Rightarrow> exn + 'b list" where
  "mapE f [] = Inr []"
| "mapE f (x # xs) = bindE (f x) (\<lambda>y. bindE (mapE f xs) (\<lambda>ys. Inr (y # ys)))"

subsection \<open>Numbers\<close>

text \<open>\<^verbatim>\<open>x > 0\<close>, \<^verbatim>\<open>Math.round(x)\<close> and \<^verbatim>\<open>Math.max(0, x)\<close>.\<close>

fun gtZero :: "jsnum \<Rightarrow> bool" where
  "gtZero (Fin q) = (0 < q)"
| "gtZero PosInf = True"
| "gtZero NegInf = False"
| "gtZero NaN = False"

fun Math_round :: "jsnum \<Rightarrow> jsnum" where
  "Math_round (Fin q) = Fin (of_int \<lfloor>q + 1 / 2\<rfloor>)"
| "Math_round x = x"

fun Math_max0 :: "jsnum \<Rightarrow> jsnum" where
  "Math_max0 (Fin q) = Fin (max 0 q)"
| "Math_max0 PosInf = PosInf"
| "Math_max0 NegInf = Fin 0"
| "Math_max0 NaN = NaN"

subsection \<open>Strings\<close>

text \<open>
  \<^verbatim>\<open>String.prototype.trim\<close> removes white space and line terminators from both ends;
  below code point 256 these are TAB, LF, VT, FF, CR, SPACE and NBSP.
\<close>

definition isWhiteSpace :: "char \<Rightarrow> bool" where
  "isWhiteSpace c =
     (c \<in> set [CHR 0x09, CHR 0x0A, CHR 0x0B, CHR 0x0C, CHR 0x0D, CHR 0x20, CHR 0xA0])"

definition trim :: "string \<Rightarrow> string" where
  "trim s = rev (dropWhile isWhiteSpace (rev (dropWhile isWhiteSpace s)))"

text \<open>Decimal digits of a natural number, as a template literal prints an array index.\<close>

definition digitChar :: "nat \<Rightarrow> char" where
  "digitChar d = ''0123456789'' ! d"

fun digits :: "nat \<Rightarrow> string" where
  "digits n =
     (if n < 10 then [digitChar n] else digits (n div 10) @ [digitChar (n mod 10)])"

declare digits.simps [simp del]

text \<open>
  String conversion inside a template literal.  The text of a number is the run-time
  system's (shortest round-trip formatting of a double) and is a parameter \<open>ns\<close> of the
  model.  An array is joined with commas, \<^verbatim>\<open>null\<close> elements printing as nothing; a plain
  object prints as \<^verbatim>\<open>[object Object]\<close> unless it has an own property \<^verbatim>\<open>toString\<close>, which
  after \<^verbatim>\<open>JSON.parse\<close> is never callable, so that the conversion raises.
\<close>

fun joinComma :: "string list \<Rightarrow> string" where
  "joinComma [] = []"
| "joinComma [s] = s"
| "joinComma (s # t # ss) = s @ '','' @ joinComma (t # ss)"

fun ToString :: "(jsnum \<Rightarrow> string) \<Rightarrow> jsval \<Rightarrow> exn + string"
  and elementTexts :: "(jsnum \<Rightarrow> string) \<Rightarrow> jsval list \<Rightarrow> exn + string list" where
  "ToString ns JNull = Inr ''null''"
| "ToString ns (JBool b) = Inr (if b then ''true'' else ''false'')"
| "ToString ns (JNum n) = Inr (ns n)"
| "ToString ns (JStr s) = Inr s"
| "ToString ns (JArr xs) = bindE (elementTexts ns xs) (\<lambda>ss. Inr (joinComma ss))"
| "ToString ns (JObj kvs) =
     (if ''toString'' \<in> fst ` set kvs then Inl TypeError else Inr ''[object Object]'')"
| "elementTexts ns [] = Inr []"
| "elementTexts ns (x # xs) =
     bindE (if x = JNull then Inr [] else ToString ns x)
       (\<lambda>s. bindE (elementTexts ns xs) (\<lambda>ss. Inr (s # ss)))"

text \<open>
  An instance of the parameter for concrete runs: the text of the non-finite values
  and of integers below \<open>10\<^sup>2\<^sup>1\<close>, where no formatting of fractions is involved.
\<close>

definition integerText :: "jsnum \<Rightarrow> string" where
  "integerText n =
     (case n of
        Fin q \<Rightarrow> (if q < 0 then ''-'' else []) @ digits (nat \<lfloor>\<bar>q\<bar>\<rfloor>)
      | PosInf \<Rightarrow> ''Infinity''
      | NegInf \<Rightarrow> ''-Infinity''
      | NaN \<Rightarrow> ''NaN'')"

section \<open>The request handler: \<^verbatim>\<open>route.ts\<close>\<close>

subsection \<open>Reading properties and coercing\<close>

text \<open>
  \<^verbatim>\<open>v.k\<close> for the property names this code reads (\<^verbatim>\<open>steps\<close>, \<^verbatim>\<open>flowName\<close>, \<^verbatim>\<open>delay\<close>,
  \<^verbatim>\<open>value\<close>, ...).  Reading from \<^verbatim>\<open>null\<close> or \<^verbatim>\<open>undefined\<close> raises; an object gives its own
  property or \<^verbatim>\<open>undefined\<close> (\<open>None\<close>); a boolean, number, string or array has none of these
  names on its prototype and gives \<^verbatim>\<open>undefined\<close>.
\<close>

fun read :: "jsval \<Rightarrow> string \<Rightarrow> exn + jsval option" where
  "read JNull k = Inl TypeError"
| "read (JObj kvs) k = Inr (map_of kvs k)"
| "read v k = Inr None"

fun readU :: "jsval option \<Rightarrow> string \<Rightarrow> exn + jsval option" where
  "readU None k = Inl TypeError"
| "readU (Some v) k = read v k"

text \<open>\<^verbatim>\<open>x.trim()\<close>: only a string has a callable \<^verbatim>\<open>trim\<close>.\<close>

fun callTrim :: "jsval option \<Rightarrow> exn + string" where
  "callTrim (Some (JStr s)) = Inr (trim s)"
| "callTrim v = Inl TypeError"

text \<open>\<^verbatim>\<open>x?.trim()\<close>: \<^verbatim>\<open>undefined\<close> when \<open>x\<close> is \<^verbatim>\<open>null\<close> or \<^verbatim>\<open>undefined\<close>.\<close>

fun optTrim :: "jsval option \<Rightarrow> exn + string option" where
  "optTrim None = Inr None"
| "optTrim (Some JNull) = Inr None"
| "optTrim (Some (JStr s)) = Inr (Some (trim s))"
| "optTrim (Some v) = Inl TypeError"

text \<open>\<^verbatim>\<open>step.f?.trim() ?? ""\<close>\<close>

definition trimField :: "jsval \<Rightarrow> string \<Rightarrow> exn + string" where
  "trimField step k =
     bindE (read step k) (\<lambda>v. bindE (optTrim v)
       (\<lambda>r. Inr (case r of None \<Rightarrow> [] | Some s \<Rightarrow> s)))"

text \<open>\<^verbatim>\<open>Boolean(x)\<close>, which is also the truth value of \<open>x\<close> in a condition.\<close>

fun Boolean :: "jsval option \<Rightarrow> bool" where
  "Boolean None = False"
| "Boolean (Some JNull) = False"
| "Boolean (Some (JBool b)) = b"
| "Boolean (Some (JNum n)) = (n \<noteq> Fin 0 \<and> n \<noteq> NaN)"
| "Boolean (Some (JStr s)) = (s \<noteq> [])"
| "Boolean (Some (JArr xs)) = True"
| "Boolean (Some (JObj kvs)) = True"

text \<open>\<^verbatim>\<open>`${x ?? ""}`\<close>\<close>

fun template :: "(jsnum \<Rightarrow> string) \<Rightarrow> jsval option \<Rightarrow> exn + string" where
  "template ns None = Inr []"
| "template ns (Some JNull) = Inr []"
| "template ns (Some v) = ToString ns v"

subsection \<open>The normalised payload\<close>

record TrackingParam =
  track_param :: string
  track_value :: string

record Delay =
  delay_value :: jsnum
  delay_unit :: string
  delay_timezone :: string

record EmailStep =
  internalName :: string
  subjectLine :: string
  previewText :: string
  fromEmail :: string
  fromName :: string
  replyToEmail :: string
  ccEmail :: string
  bccEmail :: string
  templateId :: string
  smartSendingEnabled :: bool
  status :: string
  delay :: "Delay option"
  customTracking :: "TrackingParam list"

text \<open>\<^verbatim>\<open>trigger.type\<close> is copied as it comes: any value, or \<^verbatim>\<open>undefined\<close>.\<close>

record Trigger =
  trigger_type :: "jsval option"
  trigger_id :: string

record FlowRequestPayload =
  flowName :: string
  trigger :: Trigger
  steps :: "EmailStep list"

subsection \<open>\<^verbatim>\<open>normalizeDelayUnit\<close>, \<^verbatim>\<open>normalizeStatus\<close>, \<^verbatim>\<open>sanitizePayload\<close>\<close>

definition VALID_STATUSES :: "string list" where
  "VALID_STATUSES = [''draft'', ''live'', ''manual'', ''disabled'']"

definition VALID_UNITS :: "string list" where
  "VALID_UNITS = [''minutes'', ''hours'', ''days'']"

text \<open>\<^verbatim>\<open>Array.prototype.includes\<close> on a list of strings finds only an equal string.\<close>

fun array_includes :: "string list \<Rightarrow> jsval option \<Rightarrow> bool" where
  "array_includes xs (Some (JStr s)) = (s \<in> set xs)"
| "array_includes xs v = False"

fun asString :: "jsval option \<Rightarrow> string" where
  "asString (Some (JStr s)) = s"
| "asString v = []"

definition normalizeDelayUnit :: "jsval option \<Rightarrow> string" where
  "normalizeDelayUnit unit = (if array_includes VALID_UNITS unit then asString unit else ''days'')"

definition normalizeStatus :: "jsval option \<Rightarrow> string" where
  "normalizeStatus st = (if array_includes VALID_STATUSES st then asString st else ''draft'')"

text \<open>
  The \<^verbatim>\<open>delay:\<close> expression of a step.  Once \<^verbatim>\<open>step.delay\<close> is truthy its properties can be
  read without raising; only \<^verbatim>\<open>timezone?.trim()\<close> can raise, on a time zone that is neither
  a string nor \<^verbatim>\<open>null\<close> nor missing.
\<close>

definition sanitizeDelay :: "jsval option \<Rightarrow> exn + Delay option" where
  "sanitizeDelay d =
     (if Boolean d then
        bindE (readU d ''value'') (\<lambda>v.
          case v of
            Some (JNum n) \<Rightarrow>
              if gtZero n then
                bindE (readU d ''unit'') (\<lambda>u.
                bindE (readU d ''timezone'') (\<lambda>tz.
                bindE (optTrim tz) (\<lambda>t.
                  Inr (Some \<lparr>delay_value = Math_max0 (Math_round n),
                             delay_unit = normalizeDelayUnit u,
                             delay_timezone =
                               (case t of None \<Rightarrow> ''profile''
                                | Some z \<Rightarrow> if z = [] then ''profile'' else z)\<rparr>))))
              else Inr None
          | _ \<Rightarrow> Inr None)
      else Inr None)"

text \<open>One row of \<^verbatim>\<open>customTracking\<close> under the \<^verbatim>\<open>map\<close>, then the \<^verbatim>\<open>filter\<close>.\<close>

definition sanitizeTrack :: "(jsnum \<Rightarrow> string) \<Rightarrow> jsval \<Rightarrow> exn + TrackingParam" where
  "sanitizeTrack ns track =
     bindE (read track ''param'') (\<lambda>p.
     bindE (template ns p) (\<lambda>ps.
     bindE (read track ''value'') (\<lambda>v.
     bindE (template ns v) (\<lambda>vs.
       Inr \<lparr>track_param = trim ps, track_value = trim vs\<rparr>))))"

definition keepTrack :: "TrackingParam \<Rightarrow> bool" where
  "keepTrack t = (track_param t \<noteq> [] \<and> track_value t \<noteq> [])"

definition sanitizeTracking :: "(jsnum \<Rightarrow> string) \<Rightarrow> jsval option \<Rightarrow> exn + TrackingParam list" where
  "sanitizeTracking ns ct =
     (case ct of
        Some (JArr rows) \<Rightarrow>
          bindE (mapE (sanitizeTrack ns) rows) (\<lambda>ts. Inr (filter keepTrack ts))
      | _ \<Rightarrow> Inr [])"

text \<open>The callback of \<^verbatim>\<open>payload.steps.map\<close>.\<close>

definition sanitizeStep :: "(jsnum \<Rightarrow> string) \<Rightarrow> jsval \<Rightarrow> exn + EmailStep" where
  "sanitizeStep ns step =
     bindE (trimField step ''internalName'') (\<lambda>f1.
     bindE (trimField step ''subjectLine'') (\<lambda>f2.
     bindE (trimField step ''previewText'') (\<lambda>f3.
     bindE (trimField step ''fromEmail'') (\<lambda>f4.
     bindE (trimField step ''fromName'') (\<lambda>f5.
     bindE (trimField step ''replyToEmail'') (\<lambda>f6.
     bindE (trimField step ''ccEmail'') (\<lambda>f7.
     bindE (trimField step ''bccEmail'') (\<lambda>f8.
     bindE (trimField step ''templateId'') (\<lambda>f9.
     bindE (read step ''smartSendingEnabled'') (\<lambda>sse.
     bindE (read step ''status'') (\<lambda>st.
     bindE (read step ''delay'') (\<lambda>d.
     bindE (sanitizeDelay d) (\<lambda>dl.
     bindE (read step ''customTracking'') (\<lambda>ct.
     bindE (sanitizeTracking ns ct) (\<lambda>tr.
       Inr \<lparr>internalName = f1, subjectLine = f2, previewText = f3, fromEmail = f4,
            fromName = f5, replyToEmail = f6, ccEmail = f7, bccEmail = f8,
            templateId = f9, smartSendingEnabled = Boolean sse,
            status = normalizeStatus st, delay = dl,
            customTracking = tr\<rparr>)))))))))))))))"

text \<open>
  \<^verbatim>\<open>payload.steps.map\<close> is callable only when \<^verbatim>\<open>payload.steps\<close> is an array; \<^verbatim>\<open>flowName\<close> and
  \<^verbatim>\<open>trigger.id\<close> are trimmed without \<^verbatim>\<open>?.\<close> and must be strings.
\<close>

definition sanitizePayload :: "(jsnum \<Rightarrow> string) \<Rightarrow> jsval \<Rightarrow> exn + FlowRequestPayload" where
  "sanitizePayload ns payload =
     bindE (read payload ''steps'') (\<lambda>sv.
       case sv of
         Some (JArr xs) \<Rightarrow>
           bindE (mapE (sanitizeStep ns) xs) (\<lambda>ss.
           bindE (read payload ''flowName'') (\<lambda>fnv.
           bindE (callTrim fnv) (\<lambda>fn.
           bindE (read payload ''trigger'') (\<lambda>tg.
           bindE (readU tg ''type'') (\<lambda>ty.
           bindE (readU tg ''id'') (\<lambda>iv.
           bindE (callTrim iv) (\<lambda>i.
             Inr \<lparr>flowName = fn,
                  trigger = \<lparr>trigger_type = ty, trigger_id = i\<rparr>,
                  steps = ss\<rparr>)))))))
       | _ \<Rightarrow> Inl TypeError)"

subsection \<open>\<^verbatim>\<open>validatePayload\<close>\<close>

text \<open>\<^verbatim>\<open>Array.prototype.findIndex\<close>; \<open>None\<close> stands for the result \<open>-1\<close>.\<close>

fun findIndex :: "('a \<Rightarrow> bool) \<Rightarrow> 'a list \<Rightarrow> nat option" where
  "findIndex P [] = None"
| "findIndex P (x # xs) = (if P x then Some 0 else map_option Suc (findIndex P xs))"

definition stepInvalid :: "EmailStep \<Rightarrow> bool" where
  "stepInvalid step = (subjectLine step = [] \<or> fromEmail step = [] \<or> fromName step = [])"

definition stepMessage :: "nat \<Rightarrow> string" where
  "stepMessage invalidStepIndex =
     ''Step '' @ digits (invalidStepIndex + 1) @ '' is missing subject, from name, or from email.''"

definition validatePayload :: "FlowRequestPayload \<Rightarrow> string option" where
  "validatePayload payload =
     (if flowName payload = [] then Some ''Flow name is required.''
      else if \<not> array_includes [''list'', ''segment''] (trigger_type (trigger payload)) then
        Some ''Unsupported trigger type. Only list and segment triggers are supported.''
      else if trigger_id (trigger payload) = [] then Some ''Trigger identifier is required.''
      else if steps payload = [] then Some ''At least one email step is required.''
      else (case findIndex stepInvalid (steps payload) of
              Some invalidStepIndex \<Rightarrow> Some (stepMessage invalidStepIndex)
            | None \<Rightarrow> None))"

subsection \<open>\<^verbatim>\<open>POST\<close>\<close>

text \<open>
  What the handler takes from outside is made explicit: the environment variable
  (\<open>None\<close> when unset), the outcome of \<^verbatim>\<open>request.json()\<close> (a thrown value or the parsed
  body), \<^verbatim>\<open>buildFlowDefinition\<close> of \<^verbatim>\<open>@/lib/klaviyo\<close> (a parameter: it returns a definition
  of some type \<open>'d\<close> or throws) and \<^verbatim>\<open>fetch\<close> (a parameter: it rejects, or responds with a
  status and a body on which \<^verbatim>\<open>response.json()\<close> succeeds or not).  The handler returns the
  effects it performed, in order, and either a response or the exception that escaped it.
  \<^verbatim>\<open>NextResponse.json(body, {status})\<close> is the pair of the status and the members of the
  serialised body, a member whose value is \<^verbatim>\<open>undefined\<close> being left out as
  \<^verbatim>\<open>JSON.stringify\<close> does.  The constructor of the platform refuses some statuses: it throws
  for a status outside 200 to 599, and for 204, 205 and 304 together with a body.  The
  handler passes the literal statuses 200, 400, 500 and 502, which are accepted, and in one
  place the status of the provider, which may be refused; the message of the error
  thrown then is the platform's and is a parameter \<open>refusal\<close> of the model.
\<close>

datatype thrown = Error string | NotAnError "jsval option"

record 'd ProviderRequest =
  req_url :: string
  req_method :: string
  req_Authorization :: string
  req_ContentType :: string
  req_Accept :: string
  req_revision :: string
  req_name :: string
  req_definition :: 'd

datatype FetchResult = Rejected thrown | Responded nat "jsval option"

record Response =
  res_status :: nat
  res_body :: "(string \<times> jsval) list"

datatype 'd effect = ReadBody | Fetch "'d ProviderRequest"

definition KLAVIYO_API_URL :: string where
  "KLAVIYO_API_URL = ''https://a.klaviyo.com/api/flows/''"

definition KLAVIYO_REVISION :: string where
  "KLAVIYO_REVISION = ''2024-10-15''"

definition member :: "string \<Rightarrow> jsval option \<Rightarrow> (string \<times> jsval) list" where
  "member k v = (case v of None \<Rightarrow> [] | Some x \<Rightarrow> [(k, x)])"

definition NextResponse_json :: "(string \<times> jsval) list \<Rightarrow> nat \<Rightarrow> Response" where
  "NextResponse_json body st = \<lparr>res_status = st, res_body = body\<rparr>"

definition response_ok :: "nat \<Rightarrow> bool" where
  "response_ok st = (200 \<le> st \<and> st \<le> 299)"

text \<open>\<^verbatim>\<open>!apiKey\<close> holds for an unset variable and for the empty string.\<close>

fun apiKeyMissing :: "string option \<Rightarrow> bool" where
  "apiKeyMissing None = True"
| "apiKeyMissing (Some k) = (k = [])"

text \<open>The key inside the \<^verbatim>\<open>Authorization\<close> header, read only after the test above.\<close>

fun keyText :: "string option \<Rightarrow> string" where
  "keyText None = ''undefined''"
| "keyText (Some k) = k"

definition providerRequest :: "string \<Rightarrow> string \<Rightarrow> 'd \<Rightarrow> 'd ProviderRequest" where
  "providerRequest apiKey name definition =
     \<lparr>req_url = KLAVIYO_API_URL, req_method = ''POST'',
      req_Authorization = ''Klaviyo-API-Key '' @ apiKey,
      req_ContentType = ''application/vnd.api+json'',
      req_Accept = ''application/vnd.api+json'',
      req_revision = KLAVIYO_REVISION,
      req_name = name, req_definition = definition\<rparr>"

definition statusRefused :: "nat \<Rightarrow> bool" where
  "statusRefused st = (st < 200 \<or> 599 < st \<or> st \<in> set [204, 205, 304])"

text \<open>The \<^verbatim>\<open>catch\<close> block of lines 184 to 192.\<close>

definition gatewayFailure :: "thrown \<Rightarrow> Response" where
  "gatewayFailure err =
     NextResponse_json
       ((''error'', JStr ''Failed to reach Klaviyo API.'') #
        member ''details'' (case err of Error m \<Rightarrow> Some (JStr m) | NotAnError v \<Rightarrow> v))
       502"

text \<open>
  Lines 157 to 192: the call of the provider and the mapping of its outcome.  The
  response that relays the provider's status is built inside the \<^verbatim>\<open>try\<close>; when the
  constructor refuses the status, the error it throws is caught like a failure of
  \<^verbatim>\<open>fetch\<close>.
\<close>

definition callProvider ::
  "(nat \<Rightarrow> string) \<Rightarrow> ('d ProviderRequest \<Rightarrow> FetchResult) \<Rightarrow> 'd ProviderRequest \<Rightarrow>
   Response" where
  "callProvider refusal fetch req =
     (case fetch req of
        Rejected err \<Rightarrow> gatewayFailure err
      | Responded st parsed \<Rightarrow>
          (let json = (case parsed of None \<Rightarrow> JNull | Some j \<Rightarrow> j) in
           if \<not> response_ok st then
             (if statusRefused st then gatewayFailure (Error (refusal st))
              else
                NextResponse_json
                  ((''error'', JStr ''Klaviyo API request failed.'') #
                   member ''details'' (if json = JNull then None else Some json))
                  st)
           else NextResponse_json [(''data'', json)] 200))"

definition POST ::
  "(jsnum \<Rightarrow> string) \<Rightarrow> (nat \<Rightarrow> string) \<Rightarrow> (FlowRequestPayload \<Rightarrow> thrown + 'd) \<Rightarrow>
   ('d ProviderRequest \<Rightarrow> FetchResult) \<Rightarrow> string option \<Rightarrow> thrown + jsval \<Rightarrow>
   'd effect list \<times> (exn + Response)" where
  "POST ns refusal buildFlowDefinition fetch apiKey requestJson =
     (if apiKeyMissing apiKey then
        ([], Inr (NextResponse_json
           [(''error'', JStr ''KLAVIYO_API_KEY is not configured on the server.'')] 500))
      else
        (case requestJson of
           Inl err \<Rightarrow>
             ([ReadBody], Inr (NextResponse_json
                [(''error'', JStr ''Invalid JSON payload.''),
                 (''details'', JStr (case err of Error m \<Rightarrow> m
                                     | NotAnError v \<Rightarrow> ''Unable to parse request.''))] 400))
         | Inr rawPayload \<Rightarrow>
             (case sanitizePayload ns rawPayload of
                Inl e \<Rightarrow> ([ReadBody], Inl e)
              | Inr sanitizedPayload \<Rightarrow>
                  (case validatePayload sanitizedPayload of
                     Some validationError \<Rightarrow>
                       ([ReadBody], Inr (NextResponse_json
                          [(''error'', JStr validationError)] 400))
                   | None \<Rightarrow>
                       (case buildFlowDefinition sanitizedPayload of
                          Inl err \<Rightarrow>
                            ([ReadBody], Inr (NextResponse_json
                               [(''error'', JStr (case err of Error m \<Rightarrow> m
                                   | NotAnError v \<Rightarrow>
                                       ''Unable to construct Klaviyo flow payload.''))] 400))
                        | Inr definition \<Rightarrow>
                            (let req = providerRequest (keyText apiKey)
                                         (flowName sanitizedPayload) definition
                             in ([ReadBody, Fetch req], Inr (callProvider refusal fetch req))))))))"

section \<open>The form: \<^verbatim>\<open>page.tsx\<close>\<close>

text \<open>
  The state of the form is typed by the component (\<^verbatim>\<open>useState<EmailStepForm[]>\<close>) and
  every text input stores a string, so the fields are strings here.  \<^verbatim>\<open>handleSubmit\<close>
  either sets the form error (\<open>Inl\<close>) or builds the payload it posts (\<open>Inr\<close>).
\<close>

record TrackingRow =
  row_id :: string
  row_param :: string
  row_value :: string

record EmailStepForm =
  f_id :: string
  f_internalName :: string
  f_subjectLine :: string
  f_previewText :: string
  f_fromEmail :: string
  f_fromName :: string
  f_replyToEmail :: string
  f_ccEmail :: string
  f_bccEmail :: string
  f_templateId :: string
  f_smartSendingEnabled :: bool
  f_status :: string
  f_addTrackingParams :: bool
  f_trackingRows :: "TrackingRow list"
  f_delayEnabled :: bool
  f_delayValue :: jsnum
  f_delayUnit :: string
  f_delayTimezone :: string

record FormState =
  st_flowName :: string
  st_triggerType :: string
  st_triggerId :: string
  st_steps :: "EmailStepForm list"

definition formStepInvalid :: "EmailStepForm \<Rightarrow> bool" where
  "formStepInvalid step =
     (trim (f_subjectLine step) = [] \<or> trim (f_fromEmail step) = [] \<or>
      trim (f_fromName step) = [])"

definition validateForm :: "FormState \<Rightarrow> string option" where
  "validateForm st =
     (if trim (st_flowName st) = [] then Some ''Flow name is required.''
      else if trim (st_triggerId st) = [] then
        Some ''Enter the Klaviyo trigger identifier (list or segment ID).''
      else (case findIndex formStepInvalid (st_steps st) of
              Some invalidStepIndex \<Rightarrow>
                Some (''Step '' @ digits (invalidStepIndex + 1) @
                      '' is missing required fields (subject, from name, or from email).'')
            | None \<Rightarrow> None))"

fun Number_isFinite :: "jsnum \<Rightarrow> bool" where
  "Number_isFinite (Fin q) = True"
| "Number_isFinite x = False"

text \<open>The callback of \<^verbatim>\<open>steps.map\<close> in \<^verbatim>\<open>handleSubmit\<close>; \<^verbatim>\<open>a || b\<close> on strings takes \<open>b\<close>
  exactly when \<open>a\<close> is the empty string.\<close>

definition serializeStep :: "EmailStepForm \<Rightarrow> EmailStep" where
  "serializeStep step =
     \<lparr>internalName = trim (f_internalName step),
      subjectLine = trim (f_subjectLine step),
      previewText = trim (f_previewText step),
      fromEmail = trim (f_fromEmail step),
      fromName = trim (f_fromName step),
      replyToEmail =
        trim (if f_replyToEmail step \<noteq> [] then f_replyToEmail step else f_fromEmail step),
      ccEmail = trim (f_ccEmail step),
      bccEmail = trim (f_bccEmail step),
      templateId = trim (f_templateId step),
      smartSendingEnabled = f_smartSendingEnabled step,
      status = f_status step,
      delay =
        (if f_delayEnabled step then
           Some \<lparr>delay_value =
                   (if Number_isFinite (f_delayValue step)
                    then Math_max0 (Math_round (f_delayValue step)) else Fin 0),
                 delay_unit = f_delayUnit step,
                 delay_timezone = f_delayTimezone step\<rparr>
         else None),
      customTracking =
        (if f_addTrackingParams step then
           filter keepTrack
             (map (\<lambda>row. \<lparr>track_param = trim (row_param row),
                           track_value = trim (row_value row)\<rparr>)
                (f_trackingRows step))
         else [])\<rparr>"

definition handleSubmit :: "FormState \<Rightarrow> string + FlowRequestPayload" where
  "handleSubmit st =
     (case validateForm st of
        Some validationMessage \<Rightarrow> Inl validationMessage
      | None \<Rightarrow>
          Inr \<lparr>flowName = trim (st_flowName st),
               trigger = \<lparr>trigger_type = Some (JStr (st_triggerType st)),
                          trigger_id = trim (st_triggerId st)\<rparr>,
               steps = map serializeStep (st_steps st)\<rparr>)"

section \<open>Notions of the specification\<close>

text \<open>A time zone is blank when it is missing, \<^verbatim>\<open>null\<close>, or a string that trims to nothing.\<close>

definition blankTimezone :: "jsval option \<Rightarrow> bool" where
  "blankTimezone tz =
     (case tz of None \<Rightarrow> True | Some JNull \<Rightarrow> True | Some (JStr z) \<Rightarrow> trim z = []
      | Some v \<Rightarrow> False)"

text \<open>
  The member of a body under a name: the own property of an object, nothing for any
  other value.  \<open>isArray\<close> and \<open>isString\<close> tell what kind of value a member is.
\<close>

definition ownField :: "jsval \<Rightarrow> string \<Rightarrow> jsval option" where
  "ownField v k = (case v of JObj kvs \<Rightarrow> map_of kvs k | _ \<Rightarrow> None)"

fun isArray :: "jsval option \<Rightarrow> bool" where
  "isArray (Some (JArr xs)) = True"
| "isArray v = False"

fun isString :: "jsval option \<Rightarrow> bool" where
  "isString (Some (JStr s)) = True"
| "isString v = False"

fun isObject :: "jsval \<Rightarrow> bool" where
  "isObject (JObj kvs) = True"
| "isObject v = False"

text \<open>
  Modelled from the spec: the type \<^verbatim>\<open>FlowRequestPayload\<close> is declared in \<^verbatim>\<open>@/lib/klaviyo\<close>,
  which is not among the sources.  Section 3 of the specification gives its outline: a
  FlowRequest has a string \<^verbatim>\<open>flowName\<close>, a \<^verbatim>\<open>trigger\<close> with a \<^verbatim>\<open>type\<close> that is \<^verbatim>\<open>list\<close> or
  \<^verbatim>\<open>segment\<close> and a string \<^verbatim>\<open>id\<close>, and a sequence \<^verbatim>\<open>steps\<close> of step records.  This is the
  outline only; what the fields of a step must be is left open here.
\<close>

definition shapedAsFlowRequest :: "jsval \<Rightarrow> bool" where
  "shapedAsFlowRequest body =
     (isString (ownField body ''flowName'') \<and>
      (case ownField body ''trigger'' of
         None \<Rightarrow> False
       | Some t \<Rightarrow>
           ownField t ''type'' \<in> set [Some (JStr ''list''), Some (JStr ''segment'')] \<and>
           isString (ownField t ''id'')) \<and>
      (case ownField body ''steps'' of
         Some (JArr xs) \<Rightarrow> list_all isObject xs
       | _ \<Rightarrow> False))"

text \<open>The number a string of decimal digits denotes.\<close>

definition decimalValue :: "string \<Rightarrow> nat" where
  "decimalValue s = foldl (\<lambda>a c. 10 * a + (of_char c - 48)) 0 s"

section \<open>Normalised payloads as values\<close>

text \<open>
  A normalised payload as the JavaScript value the handler holds in memory, so that
  \<^verbatim>\<open>sanitizePayload\<close> can be applied to its own result.
\<close>

definition jsOfTrack :: "TrackingParam \<Rightarrow> jsval" where
  "jsOfTrack t = JObj [(''param'', JStr (track_param t)), (''value'', JStr (track_value t))]"

definition jsOfDelay :: "Delay \<Rightarrow> jsval" where
  "jsOfDelay d =
     JObj [(''value'', JNum (delay_value d)), (''unit'', JStr (delay_unit d)),
           (''timezone'', JStr (delay_timezone d))]"

definition jsOfStep :: "EmailStep \<Rightarrow> jsval" where
  "jsOfStep s =
     JObj [(''internalName'', JStr (internalName s)),
           (''subjectLine'', JStr (subjectLine s)),
           (''previewText'', JStr (previewText s)),
           (''fromEmail'', JStr (fromEmail s)),
           (''fromName'', JStr (fromName s)),
           (''replyToEmail'', JStr (replyToEmail s)),
           (''ccEmail'', JStr (ccEmail s)),
           (''bccEmail'', JStr (bccEmail s)),
           (''templateId'', JStr (templateId s)),
           (''smartSendingEnabled'', JBool (smartSendingEnabled s)),
           (''status'', JStr (status s)),
           (''delay'', case delay s of None \<Rightarrow> JNull | Some d \<Rightarrow> jsOfDelay d),
           (''customTracking'', JArr (map jsOfTrack (customTracking s)))]"

definition jsOfPayload :: "FlowRequestPayload \<Rightarrow> jsval" where
  "jsOfPayload p =
     JObj [(''flowName'', JStr (flowName p)),
           (''trigger'',
              JObj ((case trigger_type (trigger p) of None \<Rightarrow> [] | Some v \<Rightarrow> [(''type'', v)]) @
                    [(''id'', JStr (trigger_id (trigger p)))])),
           (''steps'', JArr (map jsOfStep (steps p)))]"

text \<open>What every result of normalisation satisfies.\<close>

definition normalisedDelay :: "Delay \<Rightarrow> bool" where
  "normalisedDelay d =
     (Math_max0 (Math_round (delay_value d)) = delay_value d \<and>
      (gtZero (delay_value d) \<or> delay_value d = Fin 0) \<and>
      delay_unit d \<in> set VALID_UNITS \<and>
      trim (delay_timezone d) = delay_timezone d \<and> delay_timezone d \<noteq> [])"

definition normalisedTrack :: "TrackingParam \<Rightarrow> bool" where
  "normalisedTrack t =
     (trim (track_param t) = track_param t \<and> track_param t \<noteq> [] \<and>
      trim (track_value t) = track_value t \<and> track_value t \<noteq> [])"

definition normalisedStep :: "EmailStep \<Rightarrow> bool" where
  "normalisedStep s =
     (trim (internalName s) = internalName s \<and> trim (subjectLine s) = subjectLine s \<and>
      trim (previewText s) = previewText s \<and> trim (fromEmail s) = fromEmail s \<and>
      trim (fromName s) = fromName s \<and> trim (replyToEmail s) = replyToEmail s \<and>
      trim (ccEmail s) = ccEmail s \<and> trim (bccEmail s) = bccEmail s \<and>
      trim (templateId s) = templateId s \<and>
      status s \<in> set VALID_STATUSES \<and>
      (case delay s of None \<Rightarrow> True | Some d \<Rightarrow> normalisedDelay d) \<and>
      list_all normalisedTrack (customTracking s))"

text \<open>A zero-valued delay is the one thing a second normalisation changes.\<close>

definition dropZeroDelay :: "EmailStep \<Rightarrow> EmailStep" where
  "dropZeroDelay s =
     (case delay s of
        None \<Rightarrow> s
      | Some d \<Rightarrow> if delay_value d = Fin 0 then s\<lparr>delay := None\<rparr> else s)"

definition dropZeroDelays :: "FlowRequestPayload \<Rightarrow> FlowRequestPayload" where
  "dropZeroDelays p = p\<lparr>steps := map dropZeroDelay (steps p)\<rparr>"

section \<open>Concrete inputs\<close>

text \<open>A step as a client may post it, and what it normalises to.\<close>

definition exampleStep :: jsval where
  "exampleStep =
     JObj [(''subjectLine'', JStr '' Hi ''), (''fromEmail'', JStr ''a@b.com''),
           (''fromName'', JStr ''Team''), (''status'', JStr ''paused''),
           (''delay'', JObj [(''value'', JNum (Fin (5 / 2))), (''unit'', JStr ''weeks''),
                             (''timezone'', JStr ''  '')]),
           (''customTracking'',
              JArr [JObj [(''param'', JStr '' utm_source ''), (''value'', JStr ''mail'')],
                    JObj [(''param'', JStr ''utm_medium''), (''value'', JStr ''  '')]])]"

definition exampleStepNormalised :: EmailStep where
  "exampleStepNormalised =
     \<lparr>internalName = [], subjectLine = ''Hi'', previewText = [], fromEmail = ''a@b.com'',
      fromName = ''Team'', replyToEmail = [], ccEmail = [], bccEmail = [], templateId = [],
      smartSendingEnabled = False, status = ''draft'',
      delay = Some \<lparr>delay_value = Fin 3, delay_unit = ''days'', delay_timezone = ''profile''\<rparr>,
      customTracking = [\<lparr>track_param = ''utm_source'', track_value = ''mail''\<rparr>]\<rparr>"

definition exampleDelay :: jsval where
  "exampleDelay =
     JObj [(''value'', JNum (Fin (5 / 2))), (''unit'', JStr ''weeks''),
           (''timezone'', JStr ''  '')]"

text \<open>A request body around the example step.\<close>

definition examplePayload :: jsval where
  "examplePayload =
     JObj [(''flowName'', JStr '' Welcome ''),
           (''trigger'', JObj [(''type'', JStr ''list''), (''id'', JStr ''ABC'')]),
           (''steps'', JArr [exampleStep])]"

definition examplePayloadNormalised :: FlowRequestPayload where
  "examplePayloadNormalised =
     \<lparr>flowName = ''Welcome'',
      trigger = \<lparr>trigger_type = Some (JStr ''list''), trigger_id = ''ABC''\<rparr>,
      steps = [exampleStepNormalised]\<rparr>"

definition exampleRows :: "jsval list" where
  "exampleRows =
     [JObj [(''param'', JStr '' utm_source ''), (''value'', JStr ''mail'')],
      JObj [(''param'', JStr ''utm_medium''), (''value'', JStr ''  '')]]"

text \<open>A body whose flow name is blank and whose only step is empty.\<close>

definition unnamedPayload :: jsval where
  "unnamedPayload =
     JObj [(''flowName'', JStr ''  ''),
           (''trigger'', JObj [(''type'', JStr ''list''), (''id'', JStr ''ABC'')]),
           (''steps'', JArr [JObj []])]"

definition emptyStep :: EmailStep where
  "emptyStep =
     \<lparr>internalName = [], subjectLine = [], previewText = [], fromEmail = [], fromName = [],
      replyToEmail = [], ccEmail = [], bccEmail = [], templateId = [],
      smartSendingEnabled = False, status = ''draft'', delay = None, customTracking = []\<rparr>"

definition unnamedPayloadNormalised :: FlowRequestPayload where
  "unnamedPayloadNormalised =
     \<lparr>flowName = [],
      trigger = \<lparr>trigger_type = Some (JStr ''list''), trigger_id = ''ABC''\<rparr>,
      steps = [emptyStep]\<rparr>"

text \<open>A body whose second step lacks a subject.\<close>

definition secondStepBadPayload :: jsval where
  "secondStepBadPayload =
     JObj [(''flowName'', JStr ''Welcome''),
           (''trigger'', JObj [(''type'', JStr ''segment''), (''id'', JStr ''ABC'')]),
           (''steps'', JArr [exampleStep, JObj [(''fromEmail'', JStr ''a@b.com'')]])]"

definition secondStepBadNormalised :: FlowRequestPayload where
  "secondStepBadNormalised =
     \<lparr>flowName = ''Welcome'',
      trigger = \<lparr>trigger_type = Some (JStr ''segment''), trigger_id = ''ABC''\<rparr>,
      steps = [exampleStepNormalised, emptyStep\<lparr>fromEmail := ''a@b.com''\<rparr>]\<rparr>"

text \<open>
  Stand-ins for the two parameters of the handler in concrete runs: a builder that
  accepts every payload, and providers that answer in a fixed way.
\<close>

definition acceptingBuilder :: "FlowRequestPayload \<Rightarrow> thrown + unit" where
  "acceptingBuilder p = Inr ()"

definition providerCreated :: "unit ProviderRequest \<Rightarrow> FetchResult" where
  "providerCreated req = Responded 201 (Some (JObj [(''data'', JObj [(''id'', JStr ''F1'')])]))"






text \<open>A stand-in for the message of the platform's error in concrete runs.\<close>

definition refusalText :: "nat \<Rightarrow> string" where
  "refusalText st = ''Invalid response status code '' @ digits st"

text \<open>A body without steps, with and without a flow name.\<close>

definition noStepsPayload :: jsval where
  "noStepsPayload =
     JObj [(''flowName'', JStr ''Welcome''),
           (''trigger'', JObj [(''type'', JStr ''list''), (''id'', JStr ''ABC'')]),
           (''steps'', JArr [])]"

definition noStepsNormalised :: FlowRequestPayload where
  "noStepsNormalised =
     \<lparr>flowName = ''Welcome'',
      trigger = \<lparr>trigger_type = Some (JStr ''list''), trigger_id = ''ABC''\<rparr>,
      steps = []\<rparr>"

definition noStepsNoNamePayload :: jsval where
  "noStepsNoNamePayload =
     JObj [(''flowName'', JStr ''''),
           (''trigger'', JObj [(''type'', JStr ''list''), (''id'', JStr ''ABC'')]),
           (''steps'', JArr [])]"

definition noStepsNoNameNormalised :: FlowRequestPayload where
  "noStepsNoNameNormalised =
     \<lparr>flowName = [],
      trigger = \<lparr>trigger_type = Some (JStr ''list''), trigger_id = ''ABC''\<rparr>,
      steps = []\<rparr>"

text \<open>A body with a number for the trigger type and a number for a step.\<close>

definition oddPayload :: jsval where
  "oddPayload =
     JObj [(''flowName'', JStr ''Welcome''),
           (''trigger'', JObj [(''type'', JNum (Fin 7)), (''id'', JStr ''ABC'')]),
           (''steps'', JArr [JNum (Fin 42)])]"

text \<open>A body whose step asks for a delay of a quarter of a day.\<close>

definition quarterDelayPayload :: jsval where
  "quarterDelayPayload =
     JObj [(''flowName'', JStr ''Welcome''),
           (''trigger'', JObj [(''type'', JStr ''list''), (''id'', JStr ''ABC'')]),
           (''steps'',
              JArr [JObj [(''subjectLine'', JStr ''Hi''), (''fromEmail'', JStr ''a@b.com''),
                          (''fromName'', JStr ''Team''),
                          (''delay'', JObj [(''value'', JNum (Fin (1 / 4))),
                                            (''unit'', JStr ''days'')])]])]"

definition quarterDelayStep :: EmailStep where
  "quarterDelayStep =
     \<lparr>internalName = [], subjectLine = ''Hi'', previewText = [], fromEmail = ''a@b.com'',
      fromName = ''Team'', replyToEmail = [], ccEmail = [], bccEmail = [], templateId = [],
      smartSendingEnabled = False, status = ''draft'',
      delay = Some \<lparr>delay_value = Fin 0, delay_unit = ''days'', delay_timezone = ''profile''\<rparr>,
      customTracking = []\<rparr>"

definition quarterDelayOnce :: FlowRequestPayload where
  "quarterDelayOnce =
     \<lparr>flowName = ''Welcome'',
      trigger = \<lparr>trigger_type = Some (JStr ''list''), trigger_id = ''ABC''\<rparr>,
      steps = [quarterDelayStep]\<rparr>"

definition quarterDelayTwice :: FlowRequestPayload where
  "quarterDelayTwice =
     \<lparr>flowName = ''Welcome'',
      trigger = \<lparr>trigger_type = Some (JStr ''list''), trigger_id = ''ABC''\<rparr>,
      steps = [quarterDelayStep\<lparr>delay := None\<rparr>]\<rparr>"

text \<open>A body whose step asks for a delay written \<^verbatim>\<open>1e999\<close>.\<close>

definition infiniteDelayPayload :: jsval where
  "infiniteDelayPayload =
     JObj [(''flowName'', JStr ''Welcome''),
           (''trigger'', JObj [(''type'', JStr ''list''), (''id'', JStr ''ABC'')]),
           (''steps'',
              JArr [JObj [(''subjectLine'', JStr ''Hi''), (''fromEmail'', JStr ''a@b.com''),
                          (''fromName'', JStr ''Team''),
                          (''delay'', JObj [(''value'', JNum PosInf),
                                            (''unit'', JStr ''days'')])]])]"

definition infiniteDelayNormalised :: FlowRequestPayload where
  "infiniteDelayNormalised =
     \<lparr>flowName = ''Welcome'',
      trigger = \<lparr>trigger_type = Some (JStr ''list''), trigger_id = ''ABC''\<rparr>,
      steps =
        [quarterDelayStep\<lparr>delay :=
           Some \<lparr>delay_value = PosInf, delay_unit = ''days'',
                 delay_timezone = ''profile''\<rparr>\<rparr>]\<rparr>"

text \<open>A form whose only step has a reply-to address of two spaces.\<close>

definition spacesReplyStep :: EmailStepForm where
  "spacesReplyStep =
     \<lparr>f_id = ''step-1'', f_internalName = [], f_subjectLine = ''Hi'', f_previewText = [],
      f_fromEmail = ''a@b.com'', f_fromName = ''Team'', f_replyToEmail = ''  '',
      f_ccEmail = [], f_bccEmail = [], f_templateId = [], f_smartSendingEnabled = True,
      f_status = ''draft'', f_addTrackingParams = False, f_trackingRows = [],
      f_delayEnabled = False, f_delayValue = Fin 1, f_delayUnit = ''days'',
      f_delayTimezone = ''profile''\<rparr>"

definition spacesReplyForm :: FormState where
  "spacesReplyForm =
     \<lparr>st_flowName = ''Welcome'', st_triggerType = ''list'', st_triggerId = ''ABC'',
      st_steps = [spacesReplyStep]\<rparr>"

definition spacesReplyPayload :: FlowRequestPayload where
  "spacesReplyPayload =
     \<lparr>flowName = ''Welcome'',
      trigger = \<lparr>trigger_type = Some (JStr ''list''), trigger_id = ''ABC''\<rparr>,
      steps =
        [\<lparr>internalName = [], subjectLine = ''Hi'', previewText = [], fromEmail = ''a@b.com'',
          fromName = ''Team'', replyToEmail = [], ccEmail = [], bccEmail = [],
          templateId = [], smartSendingEnabled = True, status = ''draft'', delay = None,
          customTracking = []\<rparr>]\<rparr>"

text \<open>The same form with no reply-to address at all.\<close>

definition emptyReplyForm :: FormState where
  "emptyReplyForm =
     \<lparr>st_flowName = ''Welcome'', st_triggerType = ''list'', st_triggerId = ''ABC'',
      st_steps = [spacesReplyStep\<lparr>f_replyToEmail := []\<rparr>]\<rparr>"

definition emptyReplyPayload :: FlowRequestPayload where
  "emptyReplyPayload =
     \<lparr>flowName = ''Welcome'',
      trigger = \<lparr>trigger_type = Some (JStr ''list''), trigger_id = ''ABC''\<rparr>,
      steps =
        [\<lparr>internalName = [], subjectLine = ''Hi'', previewText = [], fromEmail = ''a@b.com'',
          fromName = ''Team'', replyToEmail = ''a@b.com'', ccEmail = [], bccEmail = [],
          templateId = [], smartSendingEnabled = True, status = ''draft'', delay = None,
          customTracking = []\<rparr>]\<rparr>"

section \<open>Properties of normalisation\<close>

subsection \<open>Sequencing and inversion\<close>

lemma bindE_Inr_iff: "bindE m f = Inr y \<longleftrightarrow> (\<exists>x. m = Inr x \<and> f x = Inr y)"
  by (cases m) (simp_all add: bindE_def)

lemma mapE_Cons_Inr:
  "mapE f (x # xs) = Inr zs \<longleftrightarrow> (\<exists>y ys. zs = y # ys \<and> f x = Inr y \<and> mapE f xs = Inr ys)"
  by (auto simp: bindE_Inr_iff)

lemma mapE_Inr_iff:
  "mapE f xs = Inr ys \<longleftrightarrow>
     length ys = length xs \<and> (\<forall>i<length xs. f (xs ! i) = Inr (ys ! i))"
proof (induction xs arbitrary: ys)
  case Nil
  then show ?case by auto
next
  case (Cons x xs)
  show ?case
  proof (cases ys)
    case Nil
    then show ?thesis by (simp add: mapE_Cons_Inr del: mapE.simps)
  next
    case (Cons y ys')
    have "(\<forall>i<Suc (length xs). f ((x # xs) ! i) = Inr ((y # ys') ! i)) \<longleftrightarrow>
          f x = Inr y \<and> (\<forall>i<length xs. f (xs ! i) = Inr (ys' ! i))"
      by (simp only: All_less_Suc2 nth_Cons_0 nth_Cons_Suc)
    then show ?thesis
      using Cons.IH [of ys'] Cons by (auto simp add: mapE_Cons_Inr simp del: mapE.simps)
  qed
qed

lemma array_includes_iff: "array_includes xs v \<longleftrightarrow> (\<exists>s. v = Some (JStr s) \<and> s \<in> set xs)"
  by (cases "(xs, v)" rule: array_includes.cases) simp_all

lemma normalizeStatus_valid: "normalizeStatus v \<in> set VALID_STATUSES"
  by (auto simp: normalizeStatus_def VALID_STATUSES_def array_includes_iff)

lemma normalizeDelayUnit_valid: "normalizeDelayUnit v \<in> set VALID_UNITS"
  by (auto simp: normalizeDelayUnit_def VALID_UNITS_def array_includes_iff)

lemma bindE_InrE:
  assumes "bindE m f = Inr y"
  obtains x where "m = Inr x" and "f x = Inr y"
  using assms by (cases m) (simp_all add: bindE_def)

lemma sanitizeStep_InrE:
  assumes "sanitizeStep ns step = Inr s"
  obtains f1 f2 f3 f4 f5 f6 f7 f8 f9 sse st d dl ct tr where
    "trimField step ''internalName'' = Inr f1" "trimField step ''subjectLine'' = Inr f2"
    "trimField step ''previewText'' = Inr f3" "trimField step ''fromEmail'' = Inr f4"
    "trimField step ''fromName'' = Inr f5" "trimField step ''replyToEmail'' = Inr f6"
    "trimField step ''ccEmail'' = Inr f7" "trimField step ''bccEmail'' = Inr f8"
    "trimField step ''templateId'' = Inr f9"
    "read step ''smartSendingEnabled'' = Inr sse"
    "read step ''status'' = Inr st" "read step ''delay'' = Inr d" "sanitizeDelay d = Inr dl"
    "read step ''customTracking'' = Inr ct" "sanitizeTracking ns ct = Inr tr"
    "s = \<lparr>internalName = f1, subjectLine = f2, previewText = f3, fromEmail = f4,
            fromName = f5, replyToEmail = f6, ccEmail = f7, bccEmail = f8,
            templateId = f9, smartSendingEnabled = Boolean sse,
            status = normalizeStatus st, delay = dl,
            customTracking = tr\<rparr>"
  using assms unfolding sanitizeStep_def
  by (elim bindE_InrE) (simp only: sum.inject)

lemma sanitizeDelay_Some:
  assumes "sanitizeDelay d = Inr (Some dl)"
  shows "\<exists>n u tz t. Boolean d \<and> readU d ''value'' = Inr (Some (JNum n)) \<and> gtZero n \<and>
           readU d ''unit'' = Inr u \<and> readU d ''timezone'' = Inr tz \<and> optTrim tz = Inr t \<and>
           delay_value dl = Math_max0 (Math_round n) \<and>
           delay_unit dl = normalizeDelayUnit u \<and>
           delay_timezone dl = (case t of None \<Rightarrow> ''profile''
                                | Some z \<Rightarrow> if z = [] then ''profile'' else z)"
proof -
  from assms have b: "Boolean d"
    unfolding sanitizeDelay_def by (simp split: if_splits)
  with assms obtain v where v: "readU d ''value'' = Inr v"
    and rest: "(case v of
            Some (JNum n) \<Rightarrow>
              if gtZero n then
                bindE (readU d ''unit'') (\<lambda>u.
                bindE (readU d ''timezone'') (\<lambda>tz.
                bindE (optTrim tz) (\<lambda>t.
                  Inr (Some \<lparr>delay_value = Math_max0 (Math_round n),
                             delay_unit = normalizeDelayUnit u,
                             delay_timezone =
                               (case t of None \<Rightarrow> ''profile''
                                | Some z \<Rightarrow> if z = [] then ''profile'' else z)\<rparr>))))
              else Inr None
          | _ \<Rightarrow> Inr None) = Inr (Some dl)"
    unfolding sanitizeDelay_def by (auto elim: bindE_InrE)
  from rest obtain n where n: "v = Some (JNum n)"
    by (cases v) (auto split: jsval.splits)
  with rest have g: "gtZero n" by (simp split: if_splits)
  with rest n obtain u tz t where "readU d ''unit'' = Inr u" "readU d ''timezone'' = Inr tz"
    "optTrim tz = Inr t"
    "dl = \<lparr>delay_value = Math_max0 (Math_round n),
                             delay_unit = normalizeDelayUnit u,
                             delay_timezone =
                               (case t of None \<Rightarrow> ''profile''
                                | Some z \<Rightarrow> if z = [] then ''profile'' else z)\<rparr>"
    by (auto elim!: bindE_InrE)
  with b v n g show ?thesis by simp
qed

lemma mapE_Inr_set:
  assumes "mapE f xs = Inr ys" and "y \<in> set ys"
  shows "\<exists>x\<in>set xs. f x = Inr y"
proof -
  from assms(2) obtain i where "i < length ys" "ys ! i = y" by (auto simp: in_set_conv_nth)
  with assms(1) show ?thesis by (auto simp: mapE_Inr_iff)
qed

lemma sanitizePayload_InrE:
  assumes "sanitizePayload ns payload = Inr q"
  obtains xs fnv tg ty iv where
    "read payload ''steps'' = Inr (Some (JArr xs))"
    "mapE (sanitizeStep ns) xs = Inr (steps q)"
    "read payload ''flowName'' = Inr fnv" "callTrim fnv = Inr (flowName q)"
    "read payload ''trigger'' = Inr tg" "readU tg ''type'' = Inr ty" "readU tg ''id'' = Inr iv"
    "callTrim iv = Inr (trigger_id (trigger q))" "trigger_type (trigger q) = ty"
proof -
  from assms obtain sv where sv: "read payload ''steps'' = Inr sv"
    and rest: "(case sv of
         Some (JArr xs) \<Rightarrow>
           bindE (mapE (sanitizeStep ns) xs) (\<lambda>ss.
           bindE (read payload ''flowName'') (\<lambda>fnv.
           bindE (callTrim fnv) (\<lambda>fn.
           bindE (read payload ''trigger'') (\<lambda>tg.
           bindE (readU tg ''type'') (\<lambda>ty.
           bindE (readU tg ''id'') (\<lambda>iv.
           bindE (callTrim iv) (\<lambda>i.
             Inr \<lparr>flowName = fn,
                  trigger = \<lparr>trigger_type = ty, trigger_id = i\<rparr>,
                  steps = ss\<rparr>)))))))
       | _ \<Rightarrow> Inl TypeError) = Inr q"
    unfolding sanitizePayload_def by (elim bindE_InrE)
  from rest obtain xs where xs: "sv = Some (JArr xs)"
    by (cases sv) (auto split: jsval.splits)
  from rest [unfolded xs] have "bindE (mapE (sanitizeStep ns) xs) (\<lambda>ss.
           bindE (read payload ''flowName'') (\<lambda>fnv.
           bindE (callTrim fnv) (\<lambda>fn.
           bindE (read payload ''trigger'') (\<lambda>tg.
           bindE (readU tg ''type'') (\<lambda>ty.
           bindE (readU tg ''id'') (\<lambda>iv.
           bindE (callTrim iv) (\<lambda>i.
             Inr \<lparr>flowName = fn,
                  trigger = \<lparr>trigger_type = ty, trigger_id = i\<rparr>,
                  steps = ss\<rparr>))))))) = Inr q" by simp
  then show thesis
    apply (elim bindE_InrE)
    apply (simp only: sum.inject)
    apply (rule that [OF sv [unfolded xs]])
    apply auto
    done
qed

subsection \<open>Delays\<close>

lemma round_half_up:
  fixes q :: rat
  assumes "0 < q"
  shows "0 \<le> \<lfloor>q + 1 / 2\<rfloor> \<and> \<bar>of_int \<lfloor>q + 1 / 2\<rfloor> - q\<bar> \<le> 1 / 2"
proof
  show "0 \<le> \<lfloor>q + 1 / 2\<rfloor>" using assms by simp
  have "of_int \<lfloor>q + 1 / 2\<rfloor> \<le> q + 1 / 2" by (rule of_int_floor_le)
  moreover have "q + 1 / 2 < of_int \<lfloor>q + 1 / 2\<rfloor> + 1" by linarith
  ultimately show "\<bar>of_int \<lfloor>q + 1 / 2\<rfloor> - q\<bar> \<le> 1 / 2" by linarith
qed

lemma Math_max0_round_Fin:
  assumes "0 < q"
  shows "\<exists>k. 0 \<le> k \<and> Math_max0 (Math_round (Fin q)) = Fin (of_int k) \<and>
             \<bar>of_int k - q\<bar> \<le> 1 / 2"
proof -
  from round_half_up [OF assms] have k: "0 \<le> \<lfloor>q + 1 / 2\<rfloor>"
    and near: "\<bar>of_int \<lfloor>q + 1 / 2\<rfloor> - q\<bar> \<le> 1 / 2" by simp_all
  from k have "Math_max0 (Math_round (Fin q)) = Fin (of_int \<lfloor>q + 1 / 2\<rfloor>)"
    by (simp add: max_def)
  with k near show ?thesis by blast
qed

lemma optTrim_cases:
  assumes "optTrim tz = Inr t"
  shows "(case t of None \<Rightarrow> ''profile'' | Some z \<Rightarrow> if z = [] then ''profile'' else z) =
         (if blankTimezone tz then ''profile'' else trim (asString tz))"
  using assms by (cases tz rule: optTrim.cases) (auto simp: blankTimezone_def)

lemma sanitizeDelay_None:
  assumes "sanitizeDelay d = Inr None"
  shows "\<not> (Boolean d \<and> readU d ''value'' = Inr (Some (JNum n)) \<and> gtZero n)"
proof
  assume a: "Boolean d \<and> readU d ''value'' = Inr (Some (JNum n)) \<and> gtZero n"
  with assms show False
    unfolding sanitizeDelay_def by (auto simp: bindE_def split: sum.splits)
qed

text \<open>
  What the delay expression does in general.  For a step that normalises, with \<open>d\<close> its
  \<^verbatim>\<open>delay\<close> property: the normalised delay is absent when \<open>d\<close> is missing or \<^verbatim>\<open>null\<close>, when
  \<^verbatim>\<open>d.value\<close> is not a number, and when it is a number that is not greater than zero; it is
  kept when \<open>d\<close> is truthy and \<^verbatim>\<open>d.value\<close> is a number greater than zero.  A kept delay comes
  from such a value only, its value is \<^verbatim>\<open>Math.max(0, Math.round(d.value))\<close>, which for a
  finite value is a non-negative integer at distance at most one half, and its time zone
  is \<^verbatim>\<open>"profile"\<close> when the given one is missing, \<^verbatim>\<open>null\<close> or empty after trimming, and the
  trimmed one otherwise.
\<close>

lemma delay_kept_iff_positive:
  assumes "sanitizeStep ns step = Inr s" and "read step ''delay'' = Inr d"
  shows "(d = None \<or> d = Some JNull \<longrightarrow> delay s = None) \<and>
         ((\<forall>n. readU d ''value'' \<noteq> Inr (Some (JNum n))) \<longrightarrow> delay s = None) \<and>
         (\<forall>n. readU d ''value'' = Inr (Some (JNum n)) \<and> \<not> gtZero n \<longrightarrow> delay s = None) \<and>
         (\<forall>n. Boolean d \<and> readU d ''value'' = Inr (Some (JNum n)) \<and> gtZero n \<longrightarrow>
              delay s \<noteq> None) \<and>
         (\<forall>dl. delay s = Some dl \<longrightarrow>
            (\<exists>n tz. readU d ''value'' = Inr (Some (JNum n)) \<and> gtZero n \<and>
               delay_value dl = Math_max0 (Math_round n) \<and>
               (\<forall>q. n = Fin q \<longrightarrow>
                  (\<exists>k. 0 \<le> k \<and> delay_value dl = Fin (of_int k) \<and>
                       \<bar>of_int k - q\<bar> \<le> 1 / 2)) \<and>
               readU d ''timezone'' = Inr tz \<and>
               delay_timezone dl = (if blankTimezone tz then ''profile'' else trim (asString tz))))"
proof -
  from assms have sd: "sanitizeDelay d = Inr (delay s)"
    by (elim sanitizeStep_InrE) simp
  have kept: "\<exists>n tz. Boolean d \<and> readU d ''value'' = Inr (Some (JNum n)) \<and> gtZero n \<and>
               delay_value dl = Math_max0 (Math_round n) \<and>
               (\<forall>q. n = Fin q \<longrightarrow>
                  (\<exists>k. 0 \<le> k \<and> delay_value dl = Fin (of_int k) \<and>
                       \<bar>of_int k - q\<bar> \<le> 1 / 2)) \<and>
               readU d ''timezone'' = Inr tz \<and>
               delay_timezone dl = (if blankTimezone tz then ''profile'' else trim (asString tz))"
    if "delay s = Some dl" for dl
  proof -
    from sd that have "sanitizeDelay d = Inr (Some dl)" by simp
    from sanitizeDelay_Some [OF this] obtain n u tz t where
      f: "Boolean d" "readU d ''value'' = Inr (Some (JNum n))" "gtZero n"
         "readU d ''timezone'' = Inr tz" "optTrim tz = Inr t"
         "delay_value dl = Math_max0 (Math_round n)"
         "delay_timezone dl = (case t of None \<Rightarrow> ''profile''
                                | Some z \<Rightarrow> if z = [] then ''profile'' else z)"
      by blast
    have "\<exists>k. 0 \<le> k \<and> delay_value dl = Fin (of_int k) \<and> \<bar>of_int k - q\<bar> \<le> 1 / 2"
      if "n = Fin q" for q
      using Math_max0_round_Fin [of q] f(3,6) that by simp
    with f optTrim_cases [OF f(5)] show ?thesis by auto
  qed
  have c1: "d = None \<or> d = Some JNull \<longrightarrow> delay s = None"
  proof (cases "delay s")
    case (Some dl)
    from kept [OF this] have "Boolean d" by blast
    then show ?thesis by auto
  qed simp
  have c2: "(\<forall>n. readU d ''value'' \<noteq> Inr (Some (JNum n))) \<longrightarrow> delay s = None"
  proof (cases "delay s")
    case (Some dl)
    from kept [OF this] show ?thesis by blast
  qed simp
  have c3: "\<forall>n. readU d ''value'' = Inr (Some (JNum n)) \<and> \<not> gtZero n \<longrightarrow> delay s = None"
  proof (cases "delay s")
    case (Some dl)
    from kept [OF this] show ?thesis by auto
  qed simp
  have c4: "\<forall>n. Boolean d \<and> readU d ''value'' = Inr (Some (JNum n)) \<and> gtZero n \<longrightarrow>
              delay s \<noteq> None"
    using sd sanitizeDelay_None [of d] by auto
  have c5: "\<forall>dl. delay s = Some dl \<longrightarrow>
            (\<exists>n tz. readU d ''value'' = Inr (Some (JNum n)) \<and> gtZero n \<and>
               delay_value dl = Math_max0 (Math_round n) \<and>
               (\<forall>q. n = Fin q \<longrightarrow>
                  (\<exists>k. 0 \<le> k \<and> delay_value dl = Fin (of_int k) \<and>
                       \<bar>of_int k - q\<bar> \<le> 1 / 2)) \<and>
               readU d ''timezone'' = Inr tz \<and>
               delay_timezone dl = (if blankTimezone tz then ''profile'' else trim (asString tz)))"
    using kept by blast
  from c1 c2 c3 c4 c5 show ?thesis by (intro conjI)
qed

lemma delay_kept_iff_positive_example:
  "sanitizeStep integerText exampleStep = Inr exampleStepNormalised \<and>
   read exampleStep ''delay'' = Inr (Some exampleDelay) \<and>
   (\<exists>dl k. delay exampleStepNormalised = Some dl \<and> 0 \<le> k \<and>
      delay_value dl = Fin (of_int k) \<and> \<bar>of_int k - 5 / 2\<bar> \<le> (1 / 2 :: rat) \<and>
      delay_timezone dl = ''profile'')"
proof -
  have h1: "sanitizeStep integerText exampleStep = Inr exampleStepNormalised"
    by code_simp
  have h2: "read exampleStep ''delay'' = Inr (Some exampleDelay)"
    by code_simp
  obtain dl where h3: "delay exampleStepNormalised = Some dl"
    by (simp add: exampleStepNormalised_def)
  from delay_kept_iff_positive [OF h1 h2] h3 obtain n tz where
    n: "readU (Some exampleDelay) ''value'' = Inr (Some (JNum n))"
    and k: "\<forall>q. n = Fin q \<longrightarrow>
              (\<exists>k. 0 \<le> k \<and> delay_value dl = Fin (of_int k) \<and> \<bar>of_int k - q\<bar> \<le> 1 / 2)"
    and tz: "readU (Some exampleDelay) ''timezone'' = Inr tz"
      "delay_timezone dl = (if blankTimezone tz then ''profile'' else trim (asString tz))"
    by blast
  from n have "n = Fin (5 / 2)" by (simp add: exampleDelay_def)
  with k obtain k where k': "0 \<le> k" "delay_value dl = Fin (of_int k)"
    "\<bar>of_int k - 5 / 2\<bar> \<le> (1 / 2 :: rat)" by blast
  from tz(1) have "tz = Some (JStr ''  '')" by (simp add: exampleDelay_def)
  then have "blankTimezone tz" by (simp add: blankTimezone_def trim_def isWhiteSpace_def)
  with tz(2) have "delay_timezone dl = ''profile''" by simp
  with h1 h2 h3 k' show ?thesis by blast
qed

text \<open>
  Claim C3 fails on the code for a value that is a number greater than zero but not
  finite.  \<^verbatim>\<open>JSON.parse\<close> reads the literal \<^verbatim>\<open>1e999\<close> as \<^verbatim>\<open>Infinity\<close>; the guard lets it pass,
  \<^verbatim>\<open>Math.round\<close> and \<^verbatim>\<open>Math.max\<close> leave it as it is, and the delay is kept with the value
  \<^verbatim>\<open>Infinity\<close>, which is no integer.  The form guards the same expression with
  \<^verbatim>\<open>Number.isFinite\<close>; the handler does not.
\<close>

theorem infinite_delay_kept:
  "sanitizePayload integerText infiniteDelayPayload = Inr infiniteDelayNormalised \<and>
   map (map_option delay_value \<circ> delay) (steps infiniteDelayNormalised) = [Some PosInf]"
  by code_simp

subsection \<open>Statuses and units\<close>

text \<open>
  Claim C10.  A status that is missing or is not one of the four known strings becomes
  \<^verbatim>\<open>"draft"\<close> and a known one is kept; a unit that is missing or is not one of the three
  known strings becomes \<^verbatim>\<open>"days"\<close> and a known one is kept.  Normalisation applies the
  first to the \<^verbatim>\<open>status\<close> of every step of the body and the second to the \<^verbatim>\<open>unit\<close> of every
  delay it keeps, step by step in the order of the body.  Hence in every normalised
  payload each step's status is one of the four and each kept delay's unit is one of the
  three.
\<close>

theorem status_and_unit_coerced:
  "(st \<notin> {Some (JStr ''draft''), Some (JStr ''live''), Some (JStr ''manual''),
           Some (JStr ''disabled'')} \<longrightarrow> normalizeStatus st = ''draft'') \<and>
   (st \<in> {Some (JStr ''draft''), Some (JStr ''live''), Some (JStr ''manual''),
           Some (JStr ''disabled'')} \<longrightarrow> Some (JStr (normalizeStatus st)) = st) \<and>
   (u \<notin> {Some (JStr ''minutes''), Some (JStr ''hours''), Some (JStr ''days'')} \<longrightarrow>
      normalizeDelayUnit u = ''days'') \<and>
   (u \<in> {Some (JStr ''minutes''), Some (JStr ''hours''), Some (JStr ''days'')} \<longrightarrow>
      Some (JStr (normalizeDelayUnit u)) = u) \<and>
   (sanitizePayload ns payload = Inr q \<longrightarrow>
      (\<exists>xs. read payload ''steps'' = Inr (Some (JArr xs)) \<and> length (steps q) = length xs \<and>
         (\<forall>i<length xs. \<exists>sv d.
            read (xs ! i) ''status'' = Inr sv \<and>
            status (steps q ! i) = normalizeStatus sv \<and>
            read (xs ! i) ''delay'' = Inr d \<and>
            (\<forall>dl. delay (steps q ! i) = Some dl \<longrightarrow>
               (\<exists>uv. readU d ''unit'' = Inr uv \<and> delay_unit dl = normalizeDelayUnit uv)))) \<and>
      (\<forall>s \<in> set (steps q).
         status s \<in> {''draft'', ''live'', ''manual'', ''disabled''} \<and>
         (\<forall>dl. delay s = Some dl \<longrightarrow> delay_unit dl \<in> {''minutes'', ''hours'', ''days''})))"
proof -
  have a: "st \<notin> {Some (JStr ''draft''), Some (JStr ''live''), Some (JStr ''manual''),
           Some (JStr ''disabled'')} \<longrightarrow> normalizeStatus st = ''draft''"
    by (auto simp: normalizeStatus_def VALID_STATUSES_def array_includes_iff)
  have b: "st \<in> {Some (JStr ''draft''), Some (JStr ''live''), Some (JStr ''manual''),
           Some (JStr ''disabled'')} \<longrightarrow> Some (JStr (normalizeStatus st)) = st"
    by (auto simp: normalizeStatus_def VALID_STATUSES_def array_includes_iff)
  have c: "u \<notin> {Some (JStr ''minutes''), Some (JStr ''hours''), Some (JStr ''days'')} \<longrightarrow>
      normalizeDelayUnit u = ''days''"
    by (auto simp: normalizeDelayUnit_def VALID_UNITS_def array_includes_iff)
  have d: "u \<in> {Some (JStr ''minutes''), Some (JStr ''hours''), Some (JStr ''days'')} \<longrightarrow>
      Some (JStr (normalizeDelayUnit u)) = u"
    by (auto simp: normalizeDelayUnit_def VALID_UNITS_def array_includes_iff)
  have step: "\<exists>sv d.
            read x ''status'' = Inr sv \<and> status s = normalizeStatus sv \<and>
            read x ''delay'' = Inr d \<and>
            (\<forall>dl. delay s = Some dl \<longrightarrow>
               (\<exists>uv. readU d ''unit'' = Inr uv \<and> delay_unit dl = normalizeDelayUnit uv))"
    if x: "sanitizeStep ns x = Inr s" for x s
  proof -
    from x obtain sv d where sv: "read x ''status'' = Inr sv" "status s = normalizeStatus sv"
      and d: "read x ''delay'' = Inr d" "sanitizeDelay d = Inr (delay s)"
      by (elim sanitizeStep_InrE) simp
    have "\<exists>uv. readU d ''unit'' = Inr uv \<and> delay_unit dl = normalizeDelayUnit uv"
      if "delay s = Some dl" for dl
    proof -
      from d(2) that have "sanitizeDelay d = Inr (Some dl)" by simp
      from sanitizeDelay_Some [OF this] show ?thesis by blast
    qed
    with sv d(1) show ?thesis by blast
  qed
  have link: "\<exists>xs. read payload ''steps'' = Inr (Some (JArr xs)) \<and>
         length (steps q) = length xs \<and>
         (\<forall>i<length xs. \<exists>sv d.
            read (xs ! i) ''status'' = Inr sv \<and>
            status (steps q ! i) = normalizeStatus sv \<and>
            read (xs ! i) ''delay'' = Inr d \<and>
            (\<forall>dl. delay (steps q ! i) = Some dl \<longrightarrow>
               (\<exists>uv. readU d ''unit'' = Inr uv \<and> delay_unit dl = normalizeDelayUnit uv)))"
    if q: "sanitizePayload ns payload = Inr q"
  proof -
    from q obtain xs where xs: "read payload ''steps'' = Inr (Some (JArr xs))"
      and m: "mapE (sanitizeStep ns) xs = Inr (steps q)"
      by (elim sanitizePayload_InrE)
    from m have l: "length (steps q) = length xs"
      and n: "\<forall>i<length xs. sanitizeStep ns (xs ! i) = Inr (steps q ! i)"
      by (simp_all add: mapE_Inr_iff)
    from n step have "\<forall>i<length xs. \<exists>sv d.
            read (xs ! i) ''status'' = Inr sv \<and>
            status (steps q ! i) = normalizeStatus sv \<and>
            read (xs ! i) ''delay'' = Inr d \<and>
            (\<forall>dl. delay (steps q ! i) = Some dl \<longrightarrow>
               (\<exists>uv. readU d ''unit'' = Inr uv \<and> delay_unit dl = normalizeDelayUnit uv))"
      by blast
    with xs l show ?thesis by blast
  qed
  have e: "status s \<in> {''draft'', ''live'', ''manual'', ''disabled''} \<and>
         (\<forall>dl. delay s = Some dl \<longrightarrow> delay_unit dl \<in> {''minutes'', ''hours'', ''days''})"
    if q: "sanitizePayload ns payload = Inr q" and s: "s \<in> set (steps q)" for s
  proof -
    from q obtain xs where "mapE (sanitizeStep ns) xs = Inr (steps q)"
      by (elim sanitizePayload_InrE)
    from mapE_Inr_set [OF this s] obtain x where x: "sanitizeStep ns x = Inr s" by blast
    from step [OF x] obtain sv d where sv: "status s = normalizeStatus sv"
      and dl: "\<forall>dl. delay s = Some dl \<longrightarrow>
               (\<exists>uv. readU d ''unit'' = Inr uv \<and> delay_unit dl = normalizeDelayUnit uv)"
      by blast
    have 1: "status s \<in> {''draft'', ''live'', ''manual'', ''disabled''}"
      using normalizeStatus_valid [of sv] sv by (simp add: VALID_STATUSES_def)
    have 2: "delay_unit dl \<in> {''minutes'', ''hours'', ''days''}" if "delay s = Some dl" for dl
    proof -
      from dl that obtain uv where "delay_unit dl = normalizeDelayUnit uv" by blast
      with normalizeDelayUnit_valid [of uv] show ?thesis by (simp add: VALID_UNITS_def)
    qed
    from 1 2 show ?thesis by blast
  qed
  from a b c d link e show ?thesis by blast
qed

theorem status_and_unit_coerced_witness:
  "Some (JStr ''paused'') \<notin> {Some (JStr ''draft''), Some (JStr ''live''),
      Some (JStr ''manual''), Some (JStr ''disabled'')} \<and>
   normalizeStatus (Some (JStr ''paused'')) = ''draft'' \<and>
   Some (JStr ''weeks'') \<notin> {Some (JStr ''minutes''), Some (JStr ''hours''),
      Some (JStr ''days'')} \<and>
   normalizeDelayUnit (Some (JStr ''weeks'')) = ''days'' \<and>
   sanitizePayload integerText examplePayload = Inr examplePayloadNormalised \<and>
   read exampleStep ''status'' = Inr (Some (JStr ''paused'')) \<and>
   status (steps examplePayloadNormalised ! 0) = normalizeStatus (Some (JStr ''paused'')) \<and>
   readU (Some exampleDelay) ''unit'' = Inr (Some (JStr ''weeks'')) \<and>
   map_option delay_unit (delay (steps examplePayloadNormalised ! 0)) =
     Some (normalizeDelayUnit (Some (JStr ''weeks''))) \<and>
   exampleStepNormalised \<in> set (steps examplePayloadNormalised) \<and>
   status exampleStepNormalised \<in> {''draft'', ''live'', ''manual'', ''disabled''}"
proof -
  have h1: "Some (JStr ''paused'') \<notin> {Some (JStr ''draft''), Some (JStr ''live''),
      Some (JStr ''manual''), Some (JStr ''disabled'')}" by simp
  have h2: "Some (JStr ''weeks'') \<notin> {Some (JStr ''minutes''), Some (JStr ''hours''),
      Some (JStr ''days'')}" by simp
  have h3: "sanitizePayload integerText examplePayload = Inr examplePayloadNormalised"
    by code_simp
  have h4: "exampleStepNormalised \<in> set (steps examplePayloadNormalised)"
    by (simp add: examplePayloadNormalised_def)
  have r1: "read examplePayload ''steps'' = Inr (Some (JArr [exampleStep]))"
    by (simp add: examplePayload_def)
  have r2: "read exampleStep ''status'' = Inr (Some (JStr ''paused''))"
    by (simp add: exampleStep_def)
  have r3: "read exampleStep ''delay'' = Inr (Some exampleDelay)"
    by (simp add: exampleStep_def exampleDelay_def)
  have r4: "readU (Some exampleDelay) ''unit'' = Inr (Some (JStr ''weeks''))"
    by (simp add: exampleDelay_def)
  obtain dl where r5: "delay (steps examplePayloadNormalised ! 0) = Some dl"
    by (simp add: examplePayloadNormalised_def exampleStepNormalised_def)
  note T = status_and_unit_coerced [of "Some (JStr ''paused'')" "Some (JStr ''weeks'')"
      integerText examplePayload examplePayloadNormalised]
  note a = T [THEN conjunct1, THEN mp, OF h1]
  note c = T [THEN conjunct2, THEN conjunct2, THEN conjunct1, THEN mp, OF h2]
  note l = T [THEN conjunct2, THEN conjunct2, THEN conjunct2, THEN conjunct2, THEN mp, OF h3,
      THEN conjunct1]
  note e = T [THEN conjunct2, THEN conjunct2, THEN conjunct2, THEN conjunct2, THEN mp, OF h3,
      THEN conjunct2, THEN bspec, OF h4, THEN conjunct1]
  from l r1 obtain sv d where
    sv: "read exampleStep ''status'' = Inr sv"
        "status (steps examplePayloadNormalised ! 0) = normalizeStatus sv"
    and d: "read exampleStep ''delay'' = Inr d"
        "\<forall>dl. delay (steps examplePayloadNormalised ! 0) = Some dl \<longrightarrow>
           (\<exists>uv. readU d ''unit'' = Inr uv \<and> delay_unit dl = normalizeDelayUnit uv)"
    by auto
  from sv r2 have s: "status (steps examplePayloadNormalised ! 0) =
      normalizeStatus (Some (JStr ''paused''))" by simp
  from d r3 r4 r5 have "delay_unit dl = normalizeDelayUnit (Some (JStr ''weeks''))"
    by auto
  with r5 have u: "map_option delay_unit (delay (steps examplePayloadNormalised ! 0)) =
     Some (normalizeDelayUnit (Some (JStr ''weeks'')))" by simp
  from h1 a h2 c h3 r2 s r4 u h4 e show ?thesis by (intro conjI)
qed

subsection \<open>Tracking rows\<close>

lemma sanitizeTrack_Inr_iff:
  "sanitizeTrack ns row = Inr t \<longleftrightarrow>
     (\<exists>p ps v vs. read row ''param'' = Inr p \<and> template ns p = Inr ps \<and>
        read row ''value'' = Inr v \<and> template ns v = Inr vs \<and>
        t = \<lparr>track_param = trim ps, track_value = trim vs\<rparr>)"
  unfolding sanitizeTrack_def bindE_Inr_iff by auto

text \<open>
  Claim C4.  For a step that normalises, with \<open>ct\<close> its \<^verbatim>\<open>customTracking\<close> property: when
  \<open>ct\<close> is an array, every row has a trimmed text for its \<^verbatim>\<open>param\<close> and its \<^verbatim>\<open>value\<close>, and
  the normalised rows are, in order, exactly the rows whose two trimmed texts are both
  non-empty; when \<open>ct\<close> is not an array, there are no normalised rows.
\<close>

theorem tracking_rows_filtered:
  assumes "sanitizeStep ns step = Inr s" and "read step ''customTracking'' = Inr ct"
  shows "(\<forall>rows. ct = Some (JArr rows) \<longrightarrow>
            (\<exists>ts. length ts = length rows \<and>
               (\<forall>i<length rows. \<exists>p ps v vs.
                   read (rows ! i) ''param'' = Inr p \<and> template ns p = Inr ps \<and>
                   read (rows ! i) ''value'' = Inr v \<and> template ns v = Inr vs \<and>
                   ts ! i = \<lparr>track_param = trim ps, track_value = trim vs\<rparr>) \<and>
               customTracking s =
                 filter (\<lambda>t. track_param t \<noteq> [] \<and> track_value t \<noteq> []) ts)) \<and>
         ((\<forall>rows. ct \<noteq> Some (JArr rows)) \<longrightarrow> customTracking s = [])"
proof -
  from assms have st: "sanitizeTracking ns ct = Inr (customTracking s)"
    by (elim sanitizeStep_InrE) simp
  have a: "\<exists>ts. length ts = length rows \<and>
               (\<forall>i<length rows. \<exists>p ps v vs.
                   read (rows ! i) ''param'' = Inr p \<and> template ns p = Inr ps \<and>
                   read (rows ! i) ''value'' = Inr v \<and> template ns v = Inr vs \<and>
                   ts ! i = \<lparr>track_param = trim ps, track_value = trim vs\<rparr>) \<and>
               customTracking s =
                 filter (\<lambda>t. track_param t \<noteq> [] \<and> track_value t \<noteq> []) ts"
    if "ct = Some (JArr rows)" for rows
  proof -
    from st that obtain ts where ts: "mapE (sanitizeTrack ns) rows = Inr ts"
      and f: "customTracking s = filter keepTrack ts"
      unfolding sanitizeTracking_def by (auto elim!: bindE_InrE)
    have "keepTrack = (\<lambda>t. track_param t \<noteq> [] \<and> track_value t \<noteq> [])"
      by (rule ext) (simp add: keepTrack_def)
    with f have f': "customTracking s =
        filter (\<lambda>t. track_param t \<noteq> [] \<and> track_value t \<noteq> []) ts" by simp
    from ts have "length ts = length rows"
      and "\<forall>i<length rows. sanitizeTrack ns (rows ! i) = Inr (ts ! i)"
      by (simp_all add: mapE_Inr_iff)
    with f' show ?thesis
      unfolding sanitizeTrack_Inr_iff by blast
  qed
  have b: "customTracking s = []" if "\<forall>rows. ct \<noteq> Some (JArr rows)"
    using st that unfolding sanitizeTracking_def
    by (auto split: option.splits jsval.splits)
  from a b show ?thesis by blast
qed

theorem tracking_rows_filtered_witness:
  "sanitizeStep integerText exampleStep = Inr exampleStepNormalised \<and>
   read exampleStep ''customTracking'' = Inr (Some (JArr exampleRows)) \<and>
   (\<exists>ts. length ts = length exampleRows \<and>
      customTracking exampleStepNormalised =
        filter (\<lambda>t. track_param t \<noteq> [] \<and> track_value t \<noteq> []) ts)"
proof -
  have h1: "sanitizeStep integerText exampleStep = Inr exampleStepNormalised"
    by code_simp
  have h2: "read exampleStep ''customTracking'' = Inr (Some (JArr exampleRows))"
    by code_simp
  from tracking_rows_filtered [OF h1 h2, THEN conjunct1, rule_format, OF refl]
  obtain ts where "length ts = length exampleRows"
    "customTracking exampleStepNormalised =
        filter (\<lambda>t. track_param t \<noteq> [] \<and> track_value t \<noteq> []) ts"
    by blast
  with h1 h2 show ?thesis by blast
qed

subsection \<open>Trimming twice\<close>

lemma dropWhile_rev_keeps_head:
  assumes "t = [] \<or> \<not> P (hd t)"
  shows "dropWhile P (rev (dropWhile P (rev t))) = rev (dropWhile P (rev t))"
proof (cases t)
  case Nil
  then show ?thesis by simp
next
  case (Cons x t')
  with assms have nx: "\<not> P x" by simp
  have "dropWhile P (rev t' @ [x]) = dropWhile P (rev t') @ [x]"
    using nx by (simp add: dropWhile_append)
  then have "rev (dropWhile P (rev t)) = x # rev (dropWhile P (rev t'))"
    using Cons by simp
  with nx show ?thesis by simp
qed

lemma trim_idem: "trim (trim s) = trim s"
proof -
  let ?t = "dropWhile isWhiteSpace s"
  have h: "?t = [] \<or> \<not> isWhiteSpace (hd ?t)"
    using hd_dropWhile [of isWhiteSpace s] by blast
  have "trim (trim s) =
      rev (dropWhile isWhiteSpace (rev (dropWhile isWhiteSpace
        (rev (dropWhile isWhiteSpace (rev ?t))))))"
    by (simp add: trim_def)
  also have "\<dots> = rev (dropWhile isWhiteSpace (rev (rev (dropWhile isWhiteSpace (rev ?t)))))"
    by (simp only: dropWhile_rev_keeps_head [of "dropWhile isWhiteSpace s" isWhiteSpace, OF h])
  also have "\<dots> = rev (dropWhile isWhiteSpace (rev ?t))"
    by (simp add: dropWhile_idem)
  finally show ?thesis by (simp add: trim_def)
qed

lemma trim_Nil: "trim [] = []"
  by (simp add: trim_def)

lemma trimField_trimmed:
  assumes "trimField step k = Inr s"
  shows "trim s = s"
proof -
  from assms obtain v r where "optTrim v = Inr r" "s = (case r of None \<Rightarrow> [] | Some z \<Rightarrow> z)"
    unfolding trimField_def by (elim bindE_InrE) simp
  then show ?thesis
    by (cases v rule: optTrim.cases) (auto simp: trim_idem trim_Nil)
qed

subsection \<open>Results of normalisation are normalised\<close>

lemma round_of_rounded:
  assumes "gtZero n"
  shows "Math_max0 (Math_round (Math_max0 (Math_round n))) = Math_max0 (Math_round n) \<and>
         (gtZero (Math_max0 (Math_round n)) \<or> Math_max0 (Math_round n) = Fin 0)"
proof (cases n)
  case (Fin q)
  define k where "k = \<lfloor>q + 1 / 2\<rfloor>"
  from Fin assms have "0 < q" by simp
  from round_half_up [OF this] have k: "0 \<le> k" by (simp add: k_def)
  then have v: "Math_max0 (Math_round n) = Fin (of_int k)"
    using Fin by (simp add: max_def k_def)
  have "\<lfloor>(of_int k :: rat) + 1 / 2\<rfloor> = k"
    by (rule floor_unique) simp_all
  then have again: "Math_max0 (Math_round (Fin (of_int k))) = Fin (of_int k)"
    using k by (simp add: max_def)
  from k have "0 < (of_int k :: rat) \<or> (of_int k :: rat) = 0"
    by (cases "k = 0") simp_all
  with v again show ?thesis by simp
qed (use assms in simp_all)

lemma profile_trimmed: "trim ''profile'' = ''profile''"
  by (simp add: trim_def isWhiteSpace_def)

lemma sanitizeDelay_normalised:
  assumes "sanitizeDelay d = Inr (Some dl)"
  shows "normalisedDelay dl"
proof -
  from sanitizeDelay_Some [OF assms] obtain n u tz t where
    f: "gtZero n" "optTrim tz = Inr t" "delay_value dl = Math_max0 (Math_round n)"
       "delay_unit dl = normalizeDelayUnit u"
       "delay_timezone dl = (case t of None \<Rightarrow> ''profile''
                                | Some z \<Rightarrow> if z = [] then ''profile'' else z)"
    by blast
  from f(2) have "t = None \<or> (\<exists>z. t = Some (trim z))"
    by (cases tz rule: optTrim.cases) auto
  with f(5) have "trim (delay_timezone dl) = delay_timezone dl \<and> delay_timezone dl \<noteq> []"
    by (auto simp: profile_trimmed trim_idem split: if_splits)
  with round_of_rounded [OF f(1)] f(3,4) normalizeDelayUnit_valid [of u]
  show ?thesis by (simp add: normalisedDelay_def)
qed

lemma sanitizeTracking_normalised:
  assumes "sanitizeTracking ns ct = Inr tr"
  shows "list_all normalisedTrack tr"
proof (cases "\<exists>rows. ct = Some (JArr rows)")
  case True
  then obtain rows where "ct = Some (JArr rows)" by blast
  with assms obtain ts where ts: "mapE (sanitizeTrack ns) rows = Inr ts"
    and tr: "tr = filter keepTrack ts"
    unfolding sanitizeTracking_def by (auto elim!: bindE_InrE)
  have "normalisedTrack t" if "t \<in> set ts" "keepTrack t" for t
  proof -
    from mapE_Inr_set [OF ts that(1)] obtain row where "sanitizeTrack ns row = Inr t" by blast
    then obtain ps vs where "t = \<lparr>track_param = trim ps, track_value = trim vs\<rparr>"
      unfolding sanitizeTrack_Inr_iff by blast
    with that(2) show ?thesis by (simp add: normalisedTrack_def keepTrack_def trim_idem)
  qed
  with tr show ?thesis by (simp add: list_all_iff)
next
  case False
  with assms have "tr = []"
    unfolding sanitizeTracking_def by (auto split: option.splits jsval.splits)
  then show ?thesis by simp
qed

lemma sanitizeStep_normalised:
  assumes "sanitizeStep ns step = Inr s"
  shows "normalisedStep s"
proof -
  from assms obtain f1 f2 f3 f4 f5 f6 f7 f8 f9 sse st d dl ct tr where
    t: "trimField step ''internalName'' = Inr f1" "trimField step ''subjectLine'' = Inr f2"
    "trimField step ''previewText'' = Inr f3" "trimField step ''fromEmail'' = Inr f4"
    "trimField step ''fromName'' = Inr f5" "trimField step ''replyToEmail'' = Inr f6"
    "trimField step ''ccEmail'' = Inr f7" "trimField step ''bccEmail'' = Inr f8"
    "trimField step ''templateId'' = Inr f9"
    and d: "sanitizeDelay d = Inr dl" and c: "sanitizeTracking ns ct = Inr tr"
    and s: "s = \<lparr>internalName = f1, subjectLine = f2, previewText = f3, fromEmail = f4,
            fromName = f5, replyToEmail = f6, ccEmail = f7, bccEmail = f8,
            templateId = f9, smartSendingEnabled = Boolean sse,
            status = normalizeStatus st, delay = dl,
            customTracking = tr\<rparr>"
    by (rule sanitizeStep_InrE)
  have dn: "case dl of None \<Rightarrow> True | Some x \<Rightarrow> normalisedDelay x"
    using d sanitizeDelay_normalised [of d] by (cases dl) simp_all
  from t [THEN trimField_trimmed] dn sanitizeTracking_normalised [OF c]
    normalizeStatus_valid [of st]
  show ?thesis unfolding s normalisedStep_def by simp
qed

subsection \<open>Normalising a normalised value\<close>

lemma trimField_jsOfStep:
  "trimField (jsOfStep s) ''internalName'' = Inr (trim (internalName s))"
  "trimField (jsOfStep s) ''subjectLine'' = Inr (trim (subjectLine s))"
  "trimField (jsOfStep s) ''previewText'' = Inr (trim (previewText s))"
  "trimField (jsOfStep s) ''fromEmail'' = Inr (trim (fromEmail s))"
  "trimField (jsOfStep s) ''fromName'' = Inr (trim (fromName s))"
  "trimField (jsOfStep s) ''replyToEmail'' = Inr (trim (replyToEmail s))"
  "trimField (jsOfStep s) ''ccEmail'' = Inr (trim (ccEmail s))"
  "trimField (jsOfStep s) ''bccEmail'' = Inr (trim (bccEmail s))"
  "trimField (jsOfStep s) ''templateId'' = Inr (trim (templateId s))"
  by (simp_all add: trimField_def jsOfStep_def bindE_def)

lemma read_jsOfStep:
  "read (jsOfStep s) ''smartSendingEnabled'' = Inr (Some (JBool (smartSendingEnabled s)))"
  "read (jsOfStep s) ''status'' = Inr (Some (JStr (status s)))"
  "read (jsOfStep s) ''delay'' =
     Inr (Some (case delay s of None \<Rightarrow> JNull | Some d \<Rightarrow> jsOfDelay d))"
  "read (jsOfStep s) ''customTracking'' = Inr (Some (JArr (map jsOfTrack (customTracking s))))"
  by (simp_all add: jsOfStep_def)

lemma normalizeStatus_known:
  "st \<in> set VALID_STATUSES \<Longrightarrow> normalizeStatus (Some (JStr st)) = st"
  by (simp add: normalizeStatus_def)

lemma normalizeDelayUnit_known:
  "u \<in> set VALID_UNITS \<Longrightarrow> normalizeDelayUnit (Some (JStr u)) = u"
  by (simp add: normalizeDelayUnit_def)

lemma sanitizeDelay_jsOfDelay:
  assumes "normalisedDelay d"
  shows "sanitizeDelay (Some (jsOfDelay d)) =
           Inr (if delay_value d = Fin 0 then None else Some d)"
proof (cases "delay_value d = Fin 0")
  case True
  then show ?thesis by (simp add: sanitizeDelay_def jsOfDelay_def bindE_def)
next
  case False
  with assms have g: "gtZero (delay_value d)" by (simp add: normalisedDelay_def)
  from assms have r: "Math_max0 (Math_round (delay_value d)) = delay_value d"
    and u: "normalizeDelayUnit (Some (JStr (delay_unit d))) = delay_unit d"
    and z: "trim (delay_timezone d) = delay_timezone d" "delay_timezone d \<noteq> []"
    by (simp_all add: normalisedDelay_def normalizeDelayUnit_known)
  from False g r u z show ?thesis
    by (simp add: sanitizeDelay_def jsOfDelay_def bindE_def)
qed

lemma sanitizeTrack_jsOfTrack:
  "normalisedTrack t \<Longrightarrow> sanitizeTrack ns (jsOfTrack t) = Inr t"
  by (simp add: sanitizeTrack_def jsOfTrack_def bindE_def normalisedTrack_def)

lemma sanitizeTracking_jsOfTrack:
  assumes "list_all normalisedTrack ts"
  shows "sanitizeTracking ns (Some (JArr (map jsOfTrack ts))) = Inr ts"
proof -
  from assms have m: "mapE (sanitizeTrack ns) (map jsOfTrack ts) = Inr ts"
    by (induction ts) (simp_all add: sanitizeTrack_jsOfTrack bindE_def)
  from assms have "filter keepTrack ts = ts"
    by (induction ts) (simp_all add: keepTrack_def normalisedTrack_def)
  with m show ?thesis by (simp add: sanitizeTracking_def bindE_def)
qed

lemma sanitizeStep_jsOfStep:
  assumes "normalisedStep s"
  shows "sanitizeStep ns (jsOfStep s) = Inr (dropZeroDelay s)"
proof -
  from assms have t: "trim (internalName s) = internalName s"
    "trim (subjectLine s) = subjectLine s" "trim (previewText s) = previewText s"
    "trim (fromEmail s) = fromEmail s" "trim (fromName s) = fromName s"
    "trim (replyToEmail s) = replyToEmail s" "trim (ccEmail s) = ccEmail s"
    "trim (bccEmail s) = bccEmail s" "trim (templateId s) = templateId s"
    and st: "normalizeStatus (Some (JStr (status s))) = status s"
    and tr: "sanitizeTracking ns (Some (JArr (map jsOfTrack (customTracking s)))) =
               Inr (customTracking s)"
    by (simp_all add: normalisedStep_def normalizeStatus_known sanitizeTracking_jsOfTrack)
  have d: "sanitizeDelay (Some (case delay s of None \<Rightarrow> JNull | Some d \<Rightarrow> jsOfDelay d)) =
             Inr (delay (dropZeroDelay s))"
  proof (cases "delay s")
    case None
    then show ?thesis by (simp add: sanitizeDelay_def dropZeroDelay_def)
  next
    case (Some d)
    with assms have "normalisedDelay d" by (simp add: normalisedStep_def)
    from sanitizeDelay_jsOfDelay [OF this] Some show ?thesis
      by (simp add: dropZeroDelay_def)
  qed
  have "sanitizeStep ns (jsOfStep s) =
      Inr \<lparr>internalName = internalName s, subjectLine = subjectLine s,
           previewText = previewText s, fromEmail = fromEmail s, fromName = fromName s,
           replyToEmail = replyToEmail s, ccEmail = ccEmail s, bccEmail = bccEmail s,
           templateId = templateId s, smartSendingEnabled = smartSendingEnabled s,
           status = status s, delay = delay (dropZeroDelay s),
           customTracking = customTracking s\<rparr>"
    unfolding sanitizeStep_def trimField_jsOfStep read_jsOfStep
    by (simp add: bindE_def t st tr d)
  also have "\<dots> = Inr (dropZeroDelay s)"
    by (cases s) (simp add: dropZeroDelay_def split: option.splits)
  finally show ?thesis .
qed

subsection \<open>The second normalisation\<close>

lemma callTrim_trimmed:
  assumes "callTrim v = Inr s"
  shows "trim s = s"
  using assms by (cases v rule: callTrim.cases) (auto simp: trim_idem)

lemma read_jsOfPayload:
  "read (jsOfPayload p) ''steps'' = Inr (Some (JArr (map jsOfStep (steps p))))"
  "read (jsOfPayload p) ''flowName'' = Inr (Some (JStr (flowName p)))"
  "read (jsOfPayload p) ''trigger'' =
     Inr (Some (JObj ((case trigger_type (trigger p) of None \<Rightarrow> []
                       | Some v \<Rightarrow> [(''type'', v)]) @
                      [(''id'', JStr (trigger_id (trigger p)))])))"
  by (simp_all add: jsOfPayload_def)

lemma mapE_jsOfStep:
  assumes "list_all normalisedStep ss"
  shows "mapE (sanitizeStep ns) (map jsOfStep ss) = Inr (map dropZeroDelay ss)"
  using assms by (induction ss) (simp_all add: sanitizeStep_jsOfStep bindE_def)

text \<open>
  Normalising the result of a normalisation succeeds, and changes nothing but the
  zero-valued delays, which it drops.
\<close>

lemma sanitizePayload_twice:
  assumes "sanitizePayload ns payload = Inr q"
  shows "sanitizePayload ns (jsOfPayload q) = Inr (dropZeroDelays q)"
proof -
  from assms obtain xs fnv iv where
    m: "mapE (sanitizeStep ns) xs = Inr (steps q)"
    and f: "callTrim fnv = Inr (flowName q)"
    and i: "callTrim iv = Inr (trigger_id (trigger q))"
    by (elim sanitizePayload_InrE)
  have "normalisedStep s" if "s \<in> set (steps q)" for s
    using mapE_Inr_set [OF m that] sanitizeStep_normalised by blast
  then have "list_all normalisedStep (steps q)" by (simp add: list_all_iff)
  from mapE_jsOfStep [OF this]
  have s: "mapE (sanitizeStep ns) (map jsOfStep (steps q)) = Inr (map dropZeroDelay (steps q))" .
  have "sanitizePayload ns (jsOfPayload q) =
      Inr \<lparr>flowName = flowName q,
           trigger = \<lparr>trigger_type = trigger_type (trigger q),
                      trigger_id = trigger_id (trigger q)\<rparr>,
           steps = map dropZeroDelay (steps q)\<rparr>"
    unfolding sanitizePayload_def read_jsOfPayload
    by (cases "trigger_type (trigger q)")
      (simp_all add: bindE_def s callTrim_trimmed [OF f] callTrim_trimmed [OF i])
  also have "\<dots> = Inr (dropZeroDelays q)"
    by (cases q, cases "trigger q") (simp add: dropZeroDelays_def)
  finally show ?thesis .
qed

text \<open>A kept delay is zero-valued exactly for a value below one half.\<close>

lemma rounded_to_zero_iff:
  assumes "gtZero n"
  shows "Math_max0 (Math_round n) = Fin 0 \<longleftrightarrow> (\<exists>q. n = Fin q \<and> q < 1 / 2)"
proof (cases n)
  case (Fin q)
  with assms have q: "0 < q" by simp
  then have k: "0 \<le> \<lfloor>q + 1 / 2\<rfloor>" by simp
  have "\<lfloor>q + 1 / 2\<rfloor> = 0 \<longleftrightarrow> q < 1 / 2"
    using q by (simp add: floor_eq_iff) linarith
  with k Fin show ?thesis by (simp add: max_def)
qed (use assms in simp_all)

subsection \<open>Idempotence\<close>

text \<open>
  Claim C1, as stated, fails.  The guard of the delay tests the value before rounding
  and the stored value is the rounded one: a delay of a quarter is kept with value 0,
  and normalising the result once more drops it, since 0 is not greater than 0.
\<close>

theorem normalisation_not_idempotent:
  "sanitizePayload integerText quarterDelayPayload = Inr quarterDelayOnce \<and>
   sanitizePayload integerText (jsOfPayload quarterDelayOnce) = Inr quarterDelayTwice \<and>
   quarterDelayTwice \<noteq> quarterDelayOnce"
  by code_simp

text \<open>
  Claim C1, amended.  On every payload whose normalisation keeps no zero-valued delay,
  normalising the result once more gives the same result.  (A kept delay is zero-valued
  exactly when the value sent lies strictly between 0 and one half.)
\<close>

theorem normalisation_idempotent_without_zero_delay:
  assumes "sanitizePayload ns payload = Inr q"
    and "\<forall>s\<in>set (steps q). \<forall>d. delay s = Some d \<longrightarrow> delay_value d \<noteq> Fin 0"
  shows "sanitizePayload ns (jsOfPayload q) = Inr q"
proof -
  have "dropZeroDelay s = s" if "s \<in> set (steps q)" for s
    using assms(2) that by (auto simp: dropZeroDelay_def split: option.splits)
  then have "map dropZeroDelay (steps q) = steps q" by (simp add: map_idI)
  then have "dropZeroDelays q = q" by (simp add: dropZeroDelays_def)
  with sanitizePayload_twice [OF assms(1)] show ?thesis by simp
qed

theorem normalisation_idempotent_without_zero_delay_witness:
  "sanitizePayload integerText examplePayload = Inr examplePayloadNormalised \<and>
   map (map_option delay_value \<circ> delay) (steps examplePayloadNormalised) = [Some (Fin 3)] \<and>
   sanitizePayload integerText (jsOfPayload examplePayloadNormalised) =
     Inr examplePayloadNormalised"
proof -
  have h1: "sanitizePayload integerText examplePayload = Inr examplePayloadNormalised"
    by code_simp
  have h2: "\<forall>s\<in>set (steps examplePayloadNormalised).
      \<forall>d. delay s = Some d \<longrightarrow> delay_value d \<noteq> Fin 0"
    by (simp add: examplePayloadNormalised_def exampleStepNormalised_def)
  have h3: "map (map_option delay_value \<circ> delay) (steps examplePayloadNormalised) =
      [Some (Fin 3)]"
    by (simp add: examplePayloadNormalised_def exampleStepNormalised_def)
  from normalisation_idempotent_without_zero_delay [OF h1 h2] h1 h3
  show ?thesis by (intro conjI)
qed

section \<open>Properties of validation\<close>

lemma findIndex_None_iff: "findIndex P xs = None \<longleftrightarrow> (\<forall>x\<in>set xs. \<not> P x)"
  by (induction xs) auto

lemma findIndex_Some_iff:
  "findIndex P xs = Some i \<longleftrightarrow> i < length xs \<and> P (xs ! i) \<and> (\<forall>j<i. \<not> P (xs ! j))"
proof (induction xs arbitrary: i)
  case Nil
  then show ?case by simp
next
  case (Cons x xs)
  show ?case
  proof (cases "P x")
    case True
    then show ?thesis by (cases i) auto
  next
    case False
    show ?thesis
    proof (cases i)
      case 0
      with False show ?thesis by simp
    next
      case (Suc k)
      have "(\<forall>j<Suc k. \<not> P ((x # xs) ! j)) \<longleftrightarrow> (\<forall>j<k. \<not> P (xs ! j))"
        using False by (simp only: All_less_Suc2 nth_Cons_0 nth_Cons_Suc) simp
      with False Suc Cons.IH [of k] show ?thesis by auto
    qed
  qed
qed

lemma validatePayload_steps_checked:
  assumes "flowName p \<noteq> []"
    and "trigger_type (trigger p) \<in> {Some (JStr ''list''), Some (JStr ''segment'')}"
    and "trigger_id (trigger p) \<noteq> []"
  shows "validatePayload p =
           (if steps p = [] then Some ''At least one email step is required.''
            else map_option stepMessage (findIndex stepInvalid (steps p)))"
proof -
  from assms(2) have "array_includes [''list'', ''segment''] (trigger_type (trigger p))"
    by (auto simp: array_includes_iff)
  with assms(1,3) show ?thesis
    by (simp add: validatePayload_def split: option.splits)
qed

subsection \<open>The position in the message\<close>

lemma digitChar_code:
  assumes "d < 10"
  shows "of_char (digitChar d) = (48 + d :: nat)"
proof -
  from assms have "d \<in> {0, 1, 2, 3, 4, 5, 6, 7, 8, 9}" by auto
  then show ?thesis by (auto simp: digitChar_def)
qed

lemma decimalValue_digits: "decimalValue (digits n) = n"
proof (induction n rule: digits.induct)
  case (1 n)
  show ?case
  proof (cases "n < 10")
    case True
    then show ?thesis
      by (simp add: digits.simps [of n] decimalValue_def digitChar_code)
  next
    case False
    have "n mod 10 < 10" by simp
    with False 1 show ?thesis
      by (simp add: digits.simps [of n] decimalValue_def digitChar_code)
  qed
qed

subsection \<open>The first invalid step\<close>

text \<open>
  Claim C5, as stated, fails: the checks of the flow name and of the trigger come first,
  so a normalised payload with an invalid step and a blank flow name is answered with
  the flow-name message, which names no step.
\<close>

theorem first_invalid_step_counterexample:
  "sanitizePayload integerText unnamedPayload = Inr unnamedPayloadNormalised \<and>
   subjectLine (hd (steps unnamedPayloadNormalised)) = [] \<and>
   validatePayload unnamedPayloadNormalised = Some ''Flow name is required.''"
  by code_simp

text \<open>
  Claim C5, amended.  For every normalised payload whose flow name, trigger type and
  trigger identifier pass their checks and which has a step missing its subject line,
  sender address or sender name, validation returns the one message
  \<^verbatim>\<open>Step N is missing subject, from name, or from email.\<close> where \<open>N - 1\<close> is the least index of
  such a step; the step at an index of the normalised payload is the normalisation of
  the step at the same index of the request body.
\<close>

theorem first_invalid_step_reported:
  assumes "sanitizePayload ns payload = Inr p"
    and "flowName p \<noteq> []"
    and "trigger_type (trigger p) \<in> {Some (JStr ''list''), Some (JStr ''segment'')}"
    and "trigger_id (trigger p) \<noteq> []"
    and "\<exists>s\<in>set (steps p). subjectLine s = [] \<or> fromEmail s = [] \<or> fromName s = []"
  shows "\<exists>i xs. read payload ''steps'' = Inr (Some (JArr xs)) \<and>
           length xs = length (steps p) \<and> i < length xs \<and>
           sanitizeStep ns (xs ! i) = Inr (steps p ! i) \<and>
           (subjectLine (steps p ! i) = [] \<or> fromEmail (steps p ! i) = [] \<or>
            fromName (steps p ! i) = []) \<and>
           (\<forall>j<i. subjectLine (steps p ! j) \<noteq> [] \<and> fromEmail (steps p ! j) \<noteq> [] \<and>
                  fromName (steps p ! j) \<noteq> []) \<and>
           validatePayload p =
             Some (''Step '' @ digits (i + 1) @
                   '' is missing subject, from name, or from email.'')"
proof -
  from assms(5) have ne: "steps p \<noteq> []" and ex: "\<exists>s\<in>set (steps p). stepInvalid s"
    by (auto simp: stepInvalid_def)
  from ex have "findIndex stepInvalid (steps p) \<noteq> None"
    by (simp add: findIndex_None_iff)
  then obtain i where i: "findIndex stepInvalid (steps p) = Some i" by blast
  then have i': "i < length (steps p)" "stepInvalid (steps p ! i)"
    "\<forall>j<i. \<not> stepInvalid (steps p ! j)"
    by (simp_all add: findIndex_Some_iff)
  from validatePayload_steps_checked [OF assms(2,3,4)] ne i
  have v: "validatePayload p = Some (stepMessage i)" by simp
  from assms(1) obtain xs where xs: "read payload ''steps'' = Inr (Some (JArr xs))"
    and m: "mapE (sanitizeStep ns) xs = Inr (steps p)"
    by (elim sanitizePayload_InrE)
  from m have l: "length xs = length (steps p)"
    and n: "\<forall>k<length xs. sanitizeStep ns (xs ! k) = Inr (steps p ! k)"
    by (simp_all add: mapE_Inr_iff)
  from i' l n xs v show ?thesis
    by (auto simp: stepInvalid_def stepMessage_def)
qed

theorem first_invalid_step_reported_witness:
  "sanitizePayload integerText secondStepBadPayload = Inr secondStepBadNormalised \<and>
   flowName secondStepBadNormalised \<noteq> [] \<and>
   trigger_type (trigger secondStepBadNormalised) \<in>
     {Some (JStr ''list''), Some (JStr ''segment'')} \<and>
   trigger_id (trigger secondStepBadNormalised) \<noteq> [] \<and>
   (\<exists>s\<in>set (steps secondStepBadNormalised).
      subjectLine s = [] \<or> fromEmail s = [] \<or> fromName s = []) \<and>
   (\<exists>i. validatePayload secondStepBadNormalised =
      Some (''Step '' @ digits (i + 1) @ '' is missing subject, from name, or from email.''))"
proof -
  have h1: "sanitizePayload integerText secondStepBadPayload = Inr secondStepBadNormalised"
    by code_simp
  have h2: "flowName secondStepBadNormalised \<noteq> []"
    by (simp add: secondStepBadNormalised_def)
  have h3: "trigger_type (trigger secondStepBadNormalised) \<in>
     {Some (JStr ''list''), Some (JStr ''segment'')}"
    by (simp add: secondStepBadNormalised_def)
  have h4: "trigger_id (trigger secondStepBadNormalised) \<noteq> []"
    by (simp add: secondStepBadNormalised_def)
  have h5: "\<exists>s\<in>set (steps secondStepBadNormalised).
      subjectLine s = [] \<or> fromEmail s = [] \<or> fromName s = []"
    by (simp add: secondStepBadNormalised_def emptyStep_def)
  from first_invalid_step_reported [OF h1 h2 h3 h4 h5]
  have "\<exists>i. validatePayload secondStepBadNormalised =
      Some (''Step '' @ digits (i + 1) @ '' is missing subject, from name, or from email.'')"
    by blast
  with h1 h2 h3 h4 h5 show ?thesis by (intro conjI)
qed

lemma second_step_reported:
  "validatePayload secondStepBadNormalised =
     Some ''Step 2 is missing subject, from name, or from email.''"
  by code_simp

section \<open>Properties of the handler\<close>

subsection \<open>Missing key\<close>

text \<open>
  Claim C7.  When the key is unset or empty the handler answers with status 500 and the
  configuration message, whatever the request is, having performed no effect: it has
  neither read the body nor called the provider.  The status differs from the 400 of a
  validation error.
\<close>

theorem missing_key_is_500:
  assumes "key = None \<or> key = Some []"
  shows "POST ns refusal build fetch key request =
           ([], Inr \<lparr>res_status = 500,
                     res_body = [(''error'',
                        JStr ''KLAVIYO_API_KEY is not configured on the server.'')]\<rparr>)"
  using assms by (auto simp: POST_def NextResponse_json_def)

theorem missing_key_is_500_witness:
  "(None = (None :: string option) \<or> None = Some []) \<and>
   POST integerText refusalText acceptingBuilder providerCreated None (Inr examplePayload) =
     ([], Inr \<lparr>res_status = 500,
               res_body = [(''error'',
                  JStr ''KLAVIYO_API_KEY is not configured on the server.'')]\<rparr>)"
proof -
  have h: "None = (None :: string option) \<or> None = Some []" by simp
  from missing_key_is_500 [OF h] h show ?thesis by blast
qed

subsection \<open>No steps\<close>

text \<open>
  Claim C6, as stated, fails: with no steps and a blank flow name the message is the
  one of the flow name, not the one asking for a step.
\<close>

theorem zero_steps_counterexample:
  "sanitizePayload integerText noStepsNoNamePayload = Inr noStepsNoNameNormalised \<and>
   steps noStepsNoNameNormalised = [] \<and>
   validatePayload noStepsNoNameNormalised = Some ''Flow name is required.''"
  by code_simp

text \<open>
  Claim C6, amended.  For every payload with zero steps validation fails with one
  message; the message is \<^verbatim>\<open>At least one email step is required.\<close> whenever the flow name,
  the trigger type and the trigger identifier pass their checks, which come first; and
  whenever the key is configured and the request body normalises to that payload, the
  handler answers with status 400 and that message, having read the body and made no
  call to the provider.
\<close>

theorem zero_steps_rejected:
  assumes "steps p = []"
  shows "\<exists>msg. validatePayload p = Some msg \<and>
           (flowName p \<noteq> [] \<and>
            trigger_type (trigger p) \<in> {Some (JStr ''list''), Some (JStr ''segment'')} \<and>
            trigger_id (trigger p) \<noteq> [] \<longrightarrow>
              msg = ''At least one email step is required.'') \<and>
           (\<forall>k raw. k \<noteq> [] \<and> sanitizePayload ns raw = Inr p \<longrightarrow>
              POST ns refusal build fetch (Some k) (Inr raw) =
                ([ReadBody], Inr \<lparr>res_status = 400, res_body = [(''error'', JStr msg)]\<rparr>))"
proof -
  from assms have "validatePayload p \<noteq> None"
    by (simp add: validatePayload_def)
  then obtain msg where m: "validatePayload p = Some msg" by blast
  have a: "msg = ''At least one email step is required.''"
    if "flowName p \<noteq> [] \<and>
        trigger_type (trigger p) \<in> {Some (JStr ''list''), Some (JStr ''segment'')} \<and>
        trigger_id (trigger p) \<noteq> []"
    using validatePayload_steps_checked [of p] that assms m by simp
  have b: "POST ns refusal build fetch (Some k) (Inr raw) =
                ([ReadBody], Inr \<lparr>res_status = 400, res_body = [(''error'', JStr msg)]\<rparr>)"
    if "k \<noteq> [] \<and> sanitizePayload ns raw = Inr p" for k raw
    using that m by (simp add: POST_def NextResponse_json_def)
  from m a b show ?thesis by blast
qed

theorem zero_steps_rejected_witness:
  "steps noStepsNormalised = [] \<and>
   (\<exists>msg. validatePayload noStepsNormalised = Some msg \<and>
      msg = ''At least one email step is required.'' \<and>
      POST integerText refusalText acceptingBuilder providerCreated (Some ''pk_test'')
          (Inr noStepsPayload) =
        ([ReadBody], Inr \<lparr>res_status = 400, res_body = [(''error'', JStr msg)]\<rparr>))"
proof -
  have h: "steps noStepsNormalised = []" by (simp add: noStepsNormalised_def)
  have g: "flowName noStepsNormalised \<noteq> [] \<and>
            trigger_type (trigger noStepsNormalised) \<in>
              {Some (JStr ''list''), Some (JStr ''segment'')} \<and>
            trigger_id (trigger noStepsNormalised) \<noteq> []"
    by (simp add: noStepsNormalised_def)
  have s: "''pk_test'' \<noteq> [] \<and>
     sanitizePayload integerText noStepsPayload = Inr noStepsNormalised"
    by code_simp
  from zero_steps_rejected [OF h, where ns = integerText and refusal = refusalText
      and build = acceptingBuilder and fetch = providerCreated]
  obtain msg where m: "validatePayload noStepsNormalised = Some msg"
    and a: "flowName noStepsNormalised \<noteq> [] \<and>
            trigger_type (trigger noStepsNormalised) \<in>
              {Some (JStr ''list''), Some (JStr ''segment'')} \<and>
            trigger_id (trigger noStepsNormalised) \<noteq> [] \<longrightarrow>
              msg = ''At least one email step is required.''"
    and b: "\<forall>k raw. k \<noteq> [] \<and> sanitizePayload integerText raw = Inr noStepsNormalised \<longrightarrow>
              POST integerText refusalText acceptingBuilder providerCreated (Some k) (Inr raw) =
                ([ReadBody], Inr \<lparr>res_status = 400, res_body = [(''error'', JStr msg)]\<rparr>)"
    by blast
  from a g have "msg = ''At least one email step is required.''" by (rule mp)
  moreover from b s have "POST integerText refusalText acceptingBuilder providerCreated (Some ''pk_test'')
          (Inr noStepsPayload) =
        ([ReadBody], Inr \<lparr>res_status = 400, res_body = [(''error'', JStr msg)]\<rparr>)"
    by blast
  ultimately show ?thesis using h m by blast
qed

subsection \<open>The provider's outcome\<close>




text \<open>
  A status that the constructor refuses is answered like a failure to reach the
  provider, with the message of the constructor's error under \<^verbatim>\<open>details\<close>.
\<close>

lemma refused_status_answered_502:
  assumes "k \<noteq> []" and "sanitizePayload ns raw = Inr p" and "validatePayload p = None"
    and "build p = Inr defn"
    and "fetch (providerRequest k (flowName p) defn) = Responded st parsed"
    and "st < 200 \<or> 599 < st \<or> st = 304"
  shows "POST ns refusal build fetch (Some k) (Inr raw) =
           ([ReadBody, Fetch (providerRequest k (flowName p) defn)],
            Inr \<lparr>res_status = 502,
                 res_body = [(''error'', JStr ''Failed to reach Klaviyo API.''),
                             (''details'', JStr (refusal st))]\<rparr>)"
proof -
  from assms(6) have "\<not> response_ok st" and "statusRefused st"
    by (auto simp: response_ok_def statusRefused_def)
  with assms(1-5) show ?thesis
    by (simp add: POST_def Let_def callProvider_def gatewayFailure_def NextResponse_json_def
        member_def)
qed

subsection \<open>Bodies that are not flow requests\<close>

lemma read_Some_iff: "read v k = Inr (Some x) \<longleftrightarrow> ownField v k = Some x"
  by (cases v) (simp_all add: ownField_def)

lemma sanitizePayload_Inr_shape:
  assumes "sanitizePayload ns body = Inr q"
  shows "isArray (ownField body ''steps'') \<and> isString (ownField body ''flowName'') \<and>
         (\<exists>t. ownField body ''trigger'' = Some t \<and> isString (ownField t ''id''))"
proof -
  from assms obtain xs fnv tg iv where
    s: "read body ''steps'' = Inr (Some (JArr xs))"
    and f: "read body ''flowName'' = Inr fnv" "callTrim fnv = Inr (flowName q)"
    and t: "read body ''trigger'' = Inr tg" "readU tg ''id'' = Inr iv"
      "callTrim iv = Inr (trigger_id (trigger q))"
    by (elim sanitizePayload_InrE)
  from s have 1: "isArray (ownField body ''steps'')" by (simp add: read_Some_iff)
  from f(2) obtain fs where "fnv = Some (JStr fs)"
    by (cases fnv rule: callTrim.cases) simp_all
  with f(1) have 2: "isString (ownField body ''flowName'')" by (simp add: read_Some_iff)
  from t(3) obtain i where i: "iv = Some (JStr i)"
    by (cases iv rule: callTrim.cases) simp_all
  from t(2) obtain tv where tv: "tg = Some tv" by (cases tg) simp_all
  with t(1) have 3: "ownField body ''trigger'' = Some tv" by (simp add: read_Some_iff)
  from t(2) tv i have "isString (ownField tv ''id'')" by (simp add: read_Some_iff)
  with 1 2 3 show ?thesis by blast
qed

text \<open>
  Claim C2, as stated, fails: not every body that is no flow request makes the handler
  throw.  A body whose trigger type is a number and whose step is a number normalises,
  and is answered with the JSON error of the trigger type check.
\<close>

theorem misshaped_body_counterexample:
  "\<not> shapedAsFlowRequest oddPayload \<and>
   POST integerText refusalText acceptingBuilder providerCreated (Some ''pk_test'') (Inr oddPayload) =
     ([ReadBody],
      Inr \<lparr>res_status = 400,
           res_body = [(''error'', JStr
             ''Unsupported trigger type. Only list and segment triggers are supported.'')]\<rparr>)"
  by code_simp

text \<open>
  Claim C2, amended.  With the key configured, for every request whose body is valid
  JSON but has no array under \<^verbatim>\<open>steps\<close> (as \<^verbatim>\<open>{}\<close> and \<^verbatim>\<open>null\<close>), or no string under
  \<^verbatim>\<open>flowName\<close>, or no \<^verbatim>\<open>trigger\<close> with a string \<^verbatim>\<open>id\<close>, the handler reads the body and then a
  \<^verbatim>\<open>TypeError\<close> raised inside \<^verbatim>\<open>sanitizePayload\<close> escapes it: no response is returned.
  An exception escapes the handler exactly when \<^verbatim>\<open>sanitizePayload\<close> raises it; the steps
  after it are guarded or cannot raise.
\<close>

theorem misshaped_body_throws:
  assumes "k \<noteq> []"
  shows "(\<not> isArray (ownField body ''steps'') \<or> \<not> isString (ownField body ''flowName'') \<or>
          (\<forall>t. ownField body ''trigger'' = Some t \<longrightarrow> \<not> isString (ownField t ''id'')) \<longrightarrow>
            POST ns refusal build fetch (Some k) (Inr body) = ([ReadBody], Inl TypeError)) \<and>
         (snd (POST ns refusal build fetch (Some k) (Inr body)) = Inl e \<longleftrightarrow>
            sanitizePayload ns body = Inl e)"
proof -
  have thrown: "POST ns refusal build fetch (Some k) (Inr body) = ([ReadBody], Inl e')"
    if "sanitizePayload ns body = Inl e'" for e'
    using that assms by (simp add: POST_def)
  have a: "POST ns refusal build fetch (Some k) (Inr body) = ([ReadBody], Inl TypeError)"
    if c: "\<not> isArray (ownField body ''steps'') \<or> \<not> isString (ownField body ''flowName'') \<or>
          (\<forall>t. ownField body ''trigger'' = Some t \<longrightarrow> \<not> isString (ownField t ''id''))"
  proof (cases "sanitizePayload ns body")
    case (Inl e')
    then show ?thesis using thrown [of e'] by (cases e') simp
  next
    case (Inr q)
    from sanitizePayload_Inr_shape [OF this] c show ?thesis by blast
  qed
  have b: "snd (POST ns refusal build fetch (Some k) (Inr body)) = Inl e \<longleftrightarrow>
            sanitizePayload ns body = Inl e"
  proof (cases "sanitizePayload ns body")
    case (Inl e')
    then show ?thesis using thrown [of e'] by simp
  next
    case (Inr q)
    with assms show ?thesis
      by (simp add: POST_def Let_def split: option.splits sum.splits)
  qed
  from a b show ?thesis by blast
qed

theorem misshaped_body_throws_witness:
  "''pk_test'' \<noteq> [] \<and> \<not> isArray (ownField (JObj []) ''steps'') \<and>
   POST integerText refusalText acceptingBuilder providerCreated (Some ''pk_test'') (Inr (JObj [])) =
     ([ReadBody], Inl TypeError) \<and>
   \<not> isArray (ownField JNull ''steps'') \<and>
   POST integerText refusalText acceptingBuilder providerCreated (Some ''pk_test'') (Inr JNull) =
     ([ReadBody], Inl TypeError)"
proof -
  have h: "''pk_test'' \<noteq> []" by simp
  have a: "\<not> isArray (ownField (JObj []) ''steps'')" by (simp add: ownField_def)
  have b: "\<not> isArray (ownField JNull ''steps'')" by (simp add: ownField_def)
  note T = misshaped_body_throws [OF h, THEN conjunct1, THEN mp, OF disjI1]
  from T [OF a] T [OF b] h a b show ?thesis by blast
qed

section \<open>Properties of the form\<close>

lemma serializeStep_replyTo:
  "replyToEmail (serializeStep step) =
     (if f_replyToEmail step = [] then trim (f_fromEmail step)
      else trim (f_replyToEmail step))"
  by (simp add: serializeStep_def)

text \<open>
  Claim C9 fails on the code for a reply-to address that is blank but not empty.  The
  test \<^verbatim>\<open>step.replyToEmail || step.fromEmail\<close> comes before the trimming, so an address of
  spaces is taken as given and trims to nothing: the payload carries an empty reply-to
  address, not the sender address.  Elsewhere the same file trims before it tests
  (\<^verbatim>\<open>!step.fromEmail.trim()\<close> in \<^verbatim>\<open>validateForm\<close>, the tracking rows), as the handler does
  for the time zone.
\<close>

theorem blank_replyTo_not_defaulted:
  "trim (f_replyToEmail spacesReplyStep) = [] \<and>
   handleSubmit spacesReplyForm = Inr spacesReplyPayload \<and>
   replyToEmail (hd (steps spacesReplyPayload)) = [] \<and>
   fromEmail (hd (steps spacesReplyPayload)) = ''a@b.com''"
  by code_simp

text \<open>
  What the expression does in general: the reply-to address of the payload is the trimmed
  sender address when the entered reply-to address is the empty string, and the trimmed
  entered reply-to address otherwise; the steps of the payload are the steps of the form,
  in order.
\<close>

lemma replyTo_defaults_when_empty:
  assumes "handleSubmit st = Inr p" and "i < length (st_steps st)"
  shows "length (steps p) = length (st_steps st) \<and>
         fromEmail (steps p ! i) = trim (f_fromEmail (st_steps st ! i)) \<and>
         replyToEmail (steps p ! i) =
           (if f_replyToEmail (st_steps st ! i) = [] then trim (f_fromEmail (st_steps st ! i))
            else trim (f_replyToEmail (st_steps st ! i)))"
proof -
  from assms(1) have "steps p = map serializeStep (st_steps st)"
    by (auto simp: handleSubmit_def split: option.splits)
  with assms(2) show ?thesis
    by (simp add: serializeStep_replyTo) (simp add: serializeStep_def)
qed

lemma replyTo_defaults_when_empty_example:
  "handleSubmit emptyReplyForm = Inr emptyReplyPayload \<and>
   (0 :: nat) < length (st_steps emptyReplyForm) \<and>
   f_replyToEmail (st_steps emptyReplyForm ! 0) = [] \<and>
   replyToEmail (steps emptyReplyPayload ! 0) = trim (f_fromEmail (st_steps emptyReplyForm ! 0))"
proof -
  have h1: "handleSubmit emptyReplyForm = Inr emptyReplyPayload" by code_simp
  have h2: "(0 :: nat) < length (st_steps emptyReplyForm)" by (simp add: emptyReplyForm_def)
  have h3: "f_replyToEmail (st_steps emptyReplyForm ! 0) = []"
    by (simp add: emptyReplyForm_def)
  from replyTo_defaults_when_empty [OF h1 h2] h3
  have "replyToEmail (steps emptyReplyPayload ! 0) =
      trim (f_fromEmail (st_steps emptyReplyForm ! 0))" by simp
  with h1 h2 h3 show ?thesis by (intro conjI)
qed

end
